theory Spec2Isabelle
  imports Main "HOL-Library.AList"
begin

section \<open>Errors and JavaScript values\<close>

text \<open>
  The library raises \<open>TypeError\<close> and \<open>RangeError\<close> from \<open>checkValid\<close>, a plain
  \<open>Error\<close> from the \<open>check...Destroyed\<close> helpers and from \<open>attachKey\<close>, and the
  runtime raises a \<open>TypeError\<close> when a property of \<open>undefined\<close> is read. Every
  raise is a value here.
\<close>

datatype err =
    TypeError
  | RangeError
  | DestroyedError
  | NoFreeSlotError

text \<open>Reading a JavaScript array out of range gives \<open>undefined\<close>, here \<open>None\<close>.\<close>

definition js_index :: "'a list \<Rightarrow> nat \<Rightarrow> 'a option" where
  "js_index xs i = (if i < length xs then Some (xs ! i) else None)"

section \<open>Image: the animation clock (image.js)\<close>

datatype image_event = FrameUpdated

text \<open>
  The private and public properties of an \<open>Image\<close> that the animation clock and
  \<open>getFrame\<close> read or write. \<open>i_animate\<close> is \<open>undefined\<close> until \<open>startAnimation\<close>
  or \<open>stopAnimation\<close> runs. \<open>i_nextFrameTimeoutId\<close> says whether the timer that calls
  \<open>nextFrame\<close> is armed. \<open>i_frameUpdatedListeners\<close> is \<open>listenerCount('frameUpdated')\<close>.
  \<open>i_loadListeners\<close> holds the \<open>frameLoaded\<close> listeners that \<open>nextFrame\<close> registers,
  each with the \<open>(nextFrame, nextLoop)\<close> pair its closure captured.
\<close>

record 'f image =
  i_destroyed :: bool
  i_animate :: "bool option"
  i_nextFrameTimeoutId :: bool
  i_frames :: "'f list"
  i_frameCount :: nat
  i_currentFrame :: nat
  i_loopCount :: nat
  i_currentLoop :: nat
  i_frameUpdatedListeners :: nat
  i_loadListeners :: "(nat \<times> nat) list"
  i_emitted :: "image_event list"

definition checkImageDestroyed :: "'f image \<Rightarrow> err option" where
  "checkImageDestroyed img = (if i_destroyed img then Some DestroyedError else None)"

text \<open>
  \<open>getFrame\<close>: the frame at \<open>currentFrame\<close>; when that slot is still empty and some
  frame is loaded, the last element of \<open>_frames\<close>; otherwise \<open>null\<close> (\<open>None\<close>).
\<close>

definition getFrame :: "'f image \<Rightarrow> err + 'f option" where
  "getFrame img =
     (case checkImageDestroyed img of
        Some e \<Rightarrow> Inl e
      | None \<Rightarrow>
          if js_index (i_frames img) (i_currentFrame img) = None \<and> length (i_frames img) \<noteq> 0
          then Inr (js_index (i_frames img) (length (i_frames img) - 1))
          else Inr (js_index (i_frames img) (i_currentFrame img)))"

text \<open>
  The tail shared by \<open>nextFrame\<close>, its \<open>frameLoaded\<close> listener, \<open>setCurrentFrame\<close> and
  \<open>resetAnimation\<close>: emit \<open>frameUpdated\<close>, then re-arm the timer when the image is
  animating and observed.
\<close>

definition emitFrameUpdated :: "'f image \<Rightarrow> 'f image" where
  "emitFrameUpdated img = img\<lparr>i_emitted := i_emitted img @ [FrameUpdated]\<rparr>"

definition rearm :: "'f image \<Rightarrow> 'f image" where
  "rearm img =
     (if i_animate img \<noteq> Some True then img
      else if i_frameUpdatedListeners img = 0 then img
      else img\<lparr>i_nextFrameTimeoutId := True\<rparr>)"

text \<open>
  \<open>manageNextFrameTimeout\<close>, which the overridden \<open>on\<close>, \<open>once\<close> and \<open>off\<close> of
  \<open>Image\<close> run after every change of the listeners, whatever the event: with no
  \<open>frameUpdated\<close> listener it clears the timer; otherwise, when the image is animating
  and no timer is armed, it arms one.
\<close>

definition manageNextFrameTimeout :: "'f image \<Rightarrow> 'f image" where
  "manageNextFrameTimeout img =
     (if i_frameUpdatedListeners img = 0 then img\<lparr>i_nextFrameTimeoutId := False\<rparr>
      else if i_animate img \<noteq> Some True then img
      else if \<not> i_nextFrameTimeoutId img then img\<lparr>i_nextFrameTimeoutId := True\<rparr>
      else img)"

text \<open>
  \<open>nextFrame\<close>. When the target frame is not loaded yet, it registers a \<open>frameLoaded\<close>
  listener with \<open>this.on\<close>, the overridden one, so \<open>manageNextFrameTimeout\<close> runs
  after the registration.
\<close>

definition nextFrame :: "'f image \<Rightarrow> 'f image" where
  "nextFrame img =
     (if i_destroyed img then img
      else if i_frameCount img \<le> 1 then img
      else
        let img1 = img\<lparr>i_nextFrameTimeoutId := False\<rparr>;
            nextFrame0 = i_currentFrame img1 + 1;
            nextLoop0 = i_currentLoop img1
        in
          if nextFrame0 \<ge> i_frameCount img1 \<and> i_loopCount img1 > 0
               \<and> nextLoop0 \<ge> i_loopCount img1
          then img1\<lparr>i_animate := Some False\<rparr>
          else
            let nextFrame1 = (if nextFrame0 \<ge> i_frameCount img1 then 0 else nextFrame0);
                nextLoop1 = (if nextFrame0 \<ge> i_frameCount img1 then nextLoop0 + 1 else nextLoop0)
            in
              if length (i_frames img1) > nextFrame1
              then rearm (emitFrameUpdated
                     (img1\<lparr>i_currentFrame := nextFrame1, i_currentLoop := nextLoop1\<rparr>))
              else manageNextFrameTimeout
                     (img1\<lparr>i_loadListeners := i_loadListeners img1 @ [(nextFrame1, nextLoop1)]\<rparr>))"

text \<open>
  The \<open>frameLoaded\<close> listener registered by \<open>nextFrame\<close>, run with the index of the
  frame that finished loading: it stays registered until its target frame is there, and
  removes itself with \<open>this.off\<close>, the overridden one, which runs
  \<open>manageNextFrameTimeout\<close>.
\<close>

definition loadListener :: "nat \<times> nat \<Rightarrow> nat \<Rightarrow> 'f image \<Rightarrow> 'f image" where
  "loadListener l frameLoaded img =
     (if frameLoaded < fst l then img
      else
        let img1 = manageNextFrameTimeout
                     (img\<lparr>i_loadListeners := remove1 l (i_loadListeners img)\<rparr>);
            img2 = emitFrameUpdated (img1\<lparr>i_currentFrame := fst l, i_currentLoop := snd l\<rparr>)
        in
          if i_animate img2 \<noteq> Some True then img2
          else if i_frameUpdatedListeners img2 = 0 then img2
          else img2\<lparr>i_nextFrameTimeoutId := True\<rparr>)"

text \<open>
  A scheduled tick: the timer callback is \<open>() => this.nextFrame()\<close>, and it runs only
  when a timer is armed.
\<close>

definition tick :: "'f image \<Rightarrow> 'f image" where
  "tick img = (if i_nextFrameTimeoutId img then nextFrame img else img)"

definition startAnimation :: "'f image \<Rightarrow> err option \<times> 'f image" where
  "startAnimation img =
     (case checkImageDestroyed img of
        Some e \<Rightarrow> (Some e, img)
      | None \<Rightarrow>
          if i_frameCount img \<le> 1 then (None, img)
          else
            let img1 = img\<lparr>i_animate := Some True\<rparr>
            in if i_frameUpdatedListeners img1 = 0 then (None, img1)
               else (None, img1\<lparr>i_nextFrameTimeoutId := True\<rparr>))"

definition stopAnimation :: "'f image \<Rightarrow> 'f image" where
  "stopAnimation img =
     (if i_destroyed img then img
      else img\<lparr>i_nextFrameTimeoutId := False, i_animate := Some False\<rparr>)"

text \<open>
  An image whose load has completed with \<open>F\<close> frames and loop count \<open>N\<close>, animating
  from frame 0 of loop 0 with one observer (what \<open>loadImage\<close> leaves behind for an
  animated source once a \<open>frameUpdated\<close> listener is attached).
\<close>

definition loaded_image :: "'f list \<Rightarrow> nat \<Rightarrow> 'f image" where
  "loaded_image fs N =
     \<lparr>i_destroyed = False, i_animate = Some True, i_nextFrameTimeoutId = True,
      i_frames = fs, i_frameCount = length fs, i_currentFrame = 0,
      i_loopCount = N, i_currentLoop = 0, i_frameUpdatedListeners = 1,
      i_loadListeners = [], i_emitted = []\<rparr>"

text \<open>
  The position invariant of a running animation: after \<open>j\<close> advances from frame 0 of
  loop 0 the image shows frame \<open>j mod F\<close> of loop \<open>j div F\<close>, written without
  division.
\<close>

definition animating :: "nat \<Rightarrow> nat \<Rightarrow> nat \<Rightarrow> 'f image \<Rightarrow> bool" where
  "animating F N j img \<longleftrightarrow>
     \<not> i_destroyed img \<and> i_frameCount img = F \<and> length (i_frames img) = F \<and>
     i_loopCount img = N \<and> i_currentFrame img < F \<and>
     j = i_currentLoop img * F + i_currentFrame img"

text \<open>
  A halted animation: no timer is armed, the flag is off, and the image rests on its last
  frame with the loop count used up.
\<close>

definition halted :: "'f image \<Rightarrow> bool" where
  "halted img \<longleftrightarrow> \<not> i_nextFrameTimeoutId img \<and> i_animate img = Some False \<and>
     i_frameCount img \<le> Suc (i_currentFrame img) \<and> 0 < i_loopCount img \<and>
     i_loopCount img \<le> i_currentLoop img"

section \<open>Image: resolving the sources of a load (image.js, loadImage)\<close>

text \<open>
  An \<open>Image.Source\<close> is a file path, a buffer, another \<open>Image\<close>, an object with the
  optional properties \<open>source\<close>, \<open>empty\<close>, \<open>color\<close>, \<open>resize\<close> and
  \<open>resizeOptions\<close>, or an array of sources. In an object, \<open>o_source\<close> is the \<open>source\<close>
  property when it is a path, a buffer or an \<open>Image\<close>, \<open>o_empty\<close> the \<open>empty\<close> property
  when it is defined, \<open>o_color\<close> the \<open>color\<close> property when it is truthy, and
  \<open>o_resizeOptions\<close> says whether \<open>resizeOptions\<close> is an object. \<open>'c\<close> is the type of
  colour descriptions.
\<close>

datatype src = SrcFile string | SrcBuffer "nat list" | SrcImage nat

record 'c source_obj =
  o_source :: "src option"
  o_empty :: "bool option"
  o_color :: "'c option"
  o_resize :: "bool option"
  o_resizeOptions :: bool

datatype 'c source = Plain src | Object "'c source_obj" | Array "'c source list"

text \<open>A background colour as \<open>sharp\<close> is given it, the alpha channel in 255ths.\<close>

datatype background = Background nat nat nat nat

text \<open>
  A resolved source: the \<open>sharp\<close> instance, either one the library returned for a source
  (\<open>'h\<close> is the type of such instances) or the blank image \<open>loadImage\<close> itself creates
  with a width, a height and a background; the width and height of its metadata; and what
  the resize step reads of the source object.
\<close>

datatype 'h sharp_handle = Decoded 'h | Created nat nat background

record 'h source_data =
  sd_source :: "'h sharp_handle"
  sd_width :: nat
  sd_height :: nat
  sd_resize :: "bool option"
  sd_resizeOptions :: bool

text \<open>
  The image-processing library, as far as this step calls it. Each function returns
  \<open>None\<close> where the call (or the \<open>metadata()\<close> call that follows it) throws inside the
  \<open>try\<close> blocks of \<open>loadImage\<close>, and otherwise the new instance with the width and
  height of its metadata: decoding a path or buffer, taking the instance of another
  \<open>Image\<close>, creating a blank image of a background colour with the source's options,
  and resizing with the source's options. \<open>parseColor\<close> is the helper of that name.
\<close>

record ('c, 'h) sharp_env =
  decode :: "src \<Rightarrow> ('h \<times> nat \<times> nat) option"
  imageSharp :: "nat \<Rightarrow> ('h \<times> nat \<times> nat) option"
  parseColor :: "'c \<Rightarrow> background option"
  create :: "nat \<Rightarrow> nat \<Rightarrow> background \<Rightarrow> ('h \<times> nat \<times> nat) option"
  resize :: "'h sharp_handle \<Rightarrow> nat \<Rightarrow> nat \<Rightarrow> ('h \<times> nat \<times> nat) option"

text \<open>\<open>sourcesData.flat(Infinity)\<close>\<close>

fun flat :: "'c source \<Rightarrow> 'c source list" where
  "flat (Array xs) = concat (map flat xs)"
| "flat (Plain s) = [Plain s]"
| "flat (Object ob) = [Object ob]"

text \<open>
  The first lines of \<open>loadImage\<close>: a source that is not an array is wrapped in one
  unless it is falsy (\<open>undefined\<close>, or the empty string), and the array is flattened.
\<close>

definition parse_sources :: "'c source option \<Rightarrow> 'c source list" where
  "parse_sources SOURCE =
     (case SOURCE of
        None \<Rightarrow> []
      | Some (Array xs) \<Rightarrow> flat (Array xs)
      | Some (Plain (SrcFile path)) \<Rightarrow> if path = [] then [] else [Plain (SrcFile path)]
      | Some s \<Rightarrow> [s])"

text \<open>A path, buffer or \<open>Image\<close> given directly becomes \<open>{ source: ... }\<close>.\<close>

definition as_object :: "'c source \<Rightarrow> 'c source_obj" where
  "as_object s =
     (case s of
        Plain x \<Rightarrow> \<lparr>o_source = Some x, o_empty = None, o_color = None, o_resize = None,
                    o_resizeOptions = False\<rparr>
      | Object ob \<Rightarrow> ob
      | Array xs \<Rightarrow> \<lparr>o_source = None, o_empty = None, o_color = None, o_resize = None,
                     o_resizeOptions = False\<rparr>)"

definition decoded :: "'c source_obj \<Rightarrow> ('h \<times> nat \<times> nat) \<Rightarrow> 'h source_data" where
  "decoded ob r =
     \<lparr>sd_source = Decoded (fst r), sd_width = fst (snd r), sd_height = snd (snd r),
      sd_resize = o_resize ob, sd_resizeOptions = o_resizeOptions ob\<rparr>"

text \<open>
  The body of the first \<open>map\<close>: one source resolves to its data, or to \<open>null\<close> after an
  \<open>error\<close> event. The result says which.
\<close>

definition resolve_source ::
    "('c, 'h) sharp_env \<Rightarrow> nat \<Rightarrow> nat \<Rightarrow> 'c source \<Rightarrow> 'h source_data option" where
  "resolve_source env WIDTH HEIGHT s =
     (let ob = as_object s in
      case o_source ob of
        Some (SrcImage im) \<Rightarrow> map_option (decoded ob) (imageSharp env im)
      | Some x \<Rightarrow> map_option (decoded ob) (decode env x)
      | None \<Rightarrow>
          (let color = (if o_empty ob \<noteq> None then Some (Some (Background 0 0 0 0))
                        else map_option (parseColor env) (o_color ob))
           in case color of
                None \<Rightarrow> None
              | Some None \<Rightarrow> None
              | Some (Some bg) \<Rightarrow> map_option (decoded ob) (create env WIDTH HEIGHT bg)))"

text \<open>
  The body of the second \<open>map\<close>: a source is left alone when \<open>resize\<close> is \<open>false\<close>, or
  when it has no resize options and already has the target size; otherwise it is resized,
  and dropped with an \<open>error\<close> event if that throws.
\<close>

definition resize_source ::
    "('c, 'h) sharp_env \<Rightarrow> nat \<Rightarrow> nat \<Rightarrow> 'h source_data \<Rightarrow> 'h source_data option" where
  "resize_source env WIDTH HEIGHT sd =
     (if sd_resize sd = Some False then Some sd
      else if \<not> sd_resizeOptions sd \<and> sd_width sd = WIDTH \<and> sd_height sd = HEIGHT then Some sd
      else case resize env (sd_source sd) WIDTH HEIGHT of
             None \<Rightarrow> None
           | Some r \<Rightarrow> Some (sd\<lparr>sd_source := Decoded (fst r), sd_width := fst (snd r),
                                 sd_height := snd (snd r)\<rparr>))"

text \<open>
  The source pushed when no source is left: a blank image of the target size with the
  background \<open>{ r: 0, g: 0, b: 0, alpha: 0 }\<close>, fully transparent. The code creates it
  outside any \<open>try\<close>, with fixed options and the width and height checked by the
  constructor; the model takes the creation to succeed.
\<close>

definition transparent_source :: "nat \<Rightarrow> nat \<Rightarrow> 'h source_data" where
  "transparent_source WIDTH HEIGHT =
     \<lparr>sd_source = Created WIDTH HEIGHT (Background 0 0 0 0), sd_width = WIDTH,
      sd_height = HEIGHT, sd_resize = None, sd_resizeOptions = False\<rparr>"

text \<open>
  \<open>loadImage\<close> up to the compositing step: the sources that go into the composite, and
  how many \<open>error\<close> events were emitted on the way (one for each source dropped).
\<close>

definition load_sources ::
    "('c, 'h) sharp_env \<Rightarrow> nat \<Rightarrow> nat \<Rightarrow> 'c source option \<Rightarrow> 'h source_data list \<times> nat" where
  "load_sources env WIDTH HEIGHT SOURCE =
     (let parsed = parse_sources SOURCE;
          resolved = map (resolve_source env WIDTH HEIGHT) parsed;
          sourcesData1 = List.map_filter id resolved;
          resized = map (resize_source env WIDTH HEIGHT) sourcesData1;
          sourcesData2 = List.map_filter id resized;
          errors = length (filter (\<lambda>r. r = None) resolved) + length (filter (\<lambda>r. r = None) resized)
      in (if sourcesData2 = [] then [transparent_source WIDTH HEIGHT] else sourcesData2, errors))"

section \<open>WildArrayValuedSet (wild-array-valued-set.js)\<close>

text \<open>
  The values stored in the interaction sets: a key slot index (a number), a \<open>Page\<close>
  object (compared by identity, so by its number here) or \<open>undefined\<close>.
\<close>

datatype jsval = JUndefined | JNum int | JObj nat

text \<open>
  The set is a JavaScript \<open>Set\<close> of arrays, iterated in insertion order: a list of
  arrays. Every method walks the set and compares an entry with the argument position
  by position with \<open>!==\<close>, after a check that the lengths agree; \<open>wildHas\<close> skips the
  positions where the argument is \<open>undefined\<close>.
\<close>

definition strict_match :: "jsval list \<Rightarrow> jsval list \<Rightarrow> bool" where
  "strict_match arr element \<longleftrightarrow>
     length arr = length element \<and> list_all2 (\<lambda>value e. value = e) arr element"

definition wild_match :: "jsval list \<Rightarrow> jsval list \<Rightarrow> bool" where
  "wild_match arr element \<longleftrightarrow>
     length arr = length element \<and>
     list_all2 (\<lambda>value e. \<not> (value \<noteq> e \<and> e \<noteq> JUndefined)) arr element"

fun set_has :: "jsval list \<Rightarrow> jsval list list \<Rightarrow> bool" where
  "set_has element [] = False"
| "set_has element (arr # rest) = (if strict_match arr element then True else set_has element rest)"

fun set_wildHas :: "jsval list \<Rightarrow> jsval list list \<Rightarrow> bool" where
  "set_wildHas element [] = False"
| "set_wildHas element (arr # rest) =
     (if wild_match arr element then True else set_wildHas element rest)"

text \<open>\<open>add\<close> appends a copy of the argument unless an entry with the same content is there.\<close>

definition set_add :: "jsval list \<Rightarrow> jsval list list \<Rightarrow> jsval list list" where
  "set_add element s = (if set_has element s then s else s @ [element])"

text \<open>\<open>delete\<close> removes the first entry with the same content.\<close>

fun set_delete :: "jsval list \<Rightarrow> jsval list list \<Rightarrow> jsval list list" where
  "set_delete element [] = []"
| "set_delete element (arr # rest) =
     (if strict_match arr element then rest else arr # set_delete element rest)"

section \<open>Notifications and the objects of one device\<close>

type_synonym pid = nat
type_synonym kid = nat

datatype target = OnDeck | OnPage pid | OnKey kid

datatype event =
    Attach | Detach | Down | Hold | Up | Click | Held | ActivityDown | ActivityUp

text \<open>
  What the library does that a caller can observe: \<open>emit(event, index, page, key)\<close> on
  the device, a page or a key, \<open>emit('idle')\<close>, and a draw job pushed on the graphics
  queue by \<open>Key.draw\<close> or \<open>Page.draw\<close>.
\<close>

datatype effect =
    Emit target event nat "pid option" "kid option"
  | EmitIdle target
  | DrawKey kid
  | DrawPage pid

text \<open>
  A \<open>Key\<close>. \<open>HOLD_TIME\<close> is a number or \<open>undefined\<close>; \<open>PRESS_TIME\<close> and
  \<open>IDLE_TIME\<close> default to the device's numbers. The two \<open>ArrayKeyedMap\<close>s of timeout
  ids are the sets of \<open>[index, page]\<close> pairs with a pending timer; the three
  \<open>WildArrayValuedSet\<close>s hold \<open>[index, page]\<close> arrays.
\<close>

record key_obj =
  k_destroyed :: bool
  k_HOLD_TIME :: "nat option"
  k_PRESS_TIME :: nat
  k_IDLE_TIME :: nat
  k_holdTimeoutIds :: "(nat \<times> pid option) set"
  k_pressTimeoutIds :: "(nat \<times> pid option) set"
  k_idleTimeoutId :: bool
  k_downStates :: "jsval list list"
  k_holdStates :: "jsval list list"
  k_pressStates :: "jsval list list"

text \<open>
  A \<open>Page\<close>. \<open>p_keys\<close> is the \<open>Map\<close> of attached keys in insertion order, which is the
  order \<open>detachKey\<close> walks it in. A pending hold timer remembers the key its closure
  captured on the down transition.
\<close>

record page_obj =
  p_destroyed :: bool
  p_HOLD_TIME :: "nat option"
  p_IDLE_TIME :: nat
  p_holdTimeoutIds :: "nat \<rightharpoonup> kid option"
  p_idleTimeoutId :: bool
  p_downIndexes :: "nat set"
  p_holdIndexes :: "nat set"
  p_keys :: "(nat \<times> kid) list"

text \<open>
  The \<open>StreamDeck\<close>. \<open>HOLD_TIME\<close> is a number (500 unless the options say otherwise).
  A pending hold timer remembers the page and key its closure captured.
\<close>

record deck_obj =
  d_destroyed :: bool
  d_KEY_COUNT :: nat
  d_PANEL_ROW_COUNT :: nat
  d_PANEL_COLUMN_COUNT :: nat
  d_HOLD_TIME :: nat
  d_IDLE_TIME :: nat
  d_holdTimeoutIds :: "nat \<rightharpoonup> (pid option \<times> kid option)"
  d_idleTimeoutId :: bool
  d_downPages :: "nat \<rightharpoonup> pid option"
  d_downKeys :: "nat \<rightharpoonup> kid option"
  d_holdIndexes :: "nat set"
  d_focusedPage :: "pid option"

text \<open>The device, the pages and keys it created, and the log of what was emitted.\<close>

record world =
  deck :: deck_obj
  pages :: "pid \<Rightarrow> page_obj"
  keys :: "kid \<Rightarrow> key_obj"
  out :: "effect list"

definition upd_deck :: "(deck_obj \<Rightarrow> deck_obj) \<Rightarrow> world \<Rightarrow> world" where
  "upd_deck f w = w\<lparr>deck := f (deck w)\<rparr>"

definition upd_page :: "pid \<Rightarrow> (page_obj \<Rightarrow> page_obj) \<Rightarrow> world \<Rightarrow> world" where
  "upd_page p f w = w\<lparr>pages := (pages w)(p := f (pages w p))\<rparr>"

definition upd_key :: "kid \<Rightarrow> (key_obj \<Rightarrow> key_obj) \<Rightarrow> world \<Rightarrow> world" where
  "upd_key k f w = w\<lparr>keys := (keys w)(k := f (keys w k))\<rparr>"

definition push_out :: "effect \<Rightarrow> world \<Rightarrow> world" where
  "push_out x w = w\<lparr>out := out w @ [x]\<rparr>"

text \<open>The array \<open>[index, page]\<close>.\<close>

definition pair :: "nat \<Rightarrow> pid option \<Rightarrow> jsval list" where
  "pair index page = [JNum (int index), (case page of None \<Rightarrow> JUndefined | Some p \<Rightarrow> JObj p)]"

section \<open>Key: the interaction handlers (key.js)\<close>

text \<open>\<open>Key.draw\<close> pushes one job on the graphics queue unless the key is destroyed.\<close>

definition key_draw :: "kid \<Rightarrow> world \<Rightarrow> world" where
  "key_draw k w = (if k_destroyed (keys w k) then w else push_out (DrawKey k) w)"

text \<open>
  The head shared by the \<open>detach\<close>, \<open>down\<close> and \<open>up\<close> handlers: clear and forget the
  pending hold and press timers of the pair.
\<close>

definition key_clear_timers :: "nat \<Rightarrow> pid option \<Rightarrow> key_obj \<Rightarrow> key_obj" where
  "key_clear_timers index page s =
     s\<lparr>k_holdTimeoutIds := k_holdTimeoutIds s - {(index, page)},
       k_pressTimeoutIds := k_pressTimeoutIds s - {(index, page)}\<rparr>"

definition key_on_detach :: "kid \<Rightarrow> nat \<Rightarrow> pid option \<Rightarrow> world \<Rightarrow> world" where
  "key_on_detach k index page w =
     (if k_destroyed (keys w k) then w
      else upd_key k (\<lambda>s.
             (key_clear_timers index page s)
               \<lparr>k_downStates := set_delete (pair index page) (k_downStates s),
                k_holdStates := set_delete (pair index page) (k_holdStates s),
                k_pressStates := set_delete (pair index page) (k_pressStates s)\<rparr>) w)"

definition key_on_down :: "kid \<Rightarrow> nat \<Rightarrow> pid option \<Rightarrow> world \<Rightarrow> world" where
  "key_on_down k index page w =
     (if k_destroyed (keys w k) then w
      else
        let w1 = upd_key k (\<lambda>s.
                   (key_clear_timers index page s)
                     \<lparr>k_downStates := set_add (pair index page) (k_downStates s),
                      k_holdStates := set_delete (pair index page) (k_holdStates s),
                      k_pressStates := set_add (pair index page) (k_pressStates s)\<rparr>) w;
            w2 = (case k_HOLD_TIME (keys w1 k) of
                    Some h \<Rightarrow>
                      if h > 0
                      then upd_key k (\<lambda>s. s\<lparr>k_holdTimeoutIds :=
                             insert (index, page) (k_holdTimeoutIds s)\<rparr>) w1
                      else w1
                  | None \<Rightarrow> w1);
            w3 = (if k_PRESS_TIME (keys w2 k) > 0
                  then upd_key k (\<lambda>s. s\<lparr>k_pressTimeoutIds :=
                         insert (index, page) (k_pressTimeoutIds s)\<rparr>) w2
                  else w2)
        in key_draw k w3)"

definition key_on_hold :: "kid \<Rightarrow> nat \<Rightarrow> pid option \<Rightarrow> world \<Rightarrow> world" where
  "key_on_hold k index page w =
     (if k_destroyed (keys w k) then w
      else if k_HOLD_TIME (keys w k) \<noteq> None then w
      else upd_key k (\<lambda>s. s\<lparr>k_holdStates := set_add (pair index page) (k_holdStates s)\<rparr>) w)"

text \<open>
  The \<open>up\<close> handler. It emits \<open>held\<close> or \<open>click\<close> on the key itself; the key has no
  handler of its own for those two events, so the emission is only logged.
\<close>

definition key_on_up :: "kid \<Rightarrow> nat \<Rightarrow> pid option \<Rightarrow> world \<Rightarrow> world" where
  "key_on_up k index page w =
     (if k_destroyed (keys w k) then w
      else
        let w1 = upd_key k (key_clear_timers index page) w;
            held = set_has (pair index page) (k_holdStates (keys w1 k));
            pressed = set_has (pair index page) (k_pressStates (keys w1 k));
            w2 = upd_key k (\<lambda>s.
                   s\<lparr>k_downStates := set_delete (pair index page) (k_downStates s),
                     k_holdStates := set_delete (pair index page) (k_holdStates s),
                     k_pressStates := set_delete (pair index page) (k_pressStates s)\<rparr>) w1;
            w3 = (if k_HOLD_TIME (keys w2 k) \<noteq> None
                  then push_out (Emit (OnKey k) (if held then Held else Click) index page (Some k)) w2
                  else w2)
        in if pressed then key_draw k w3 else w3)"

definition key_on_activity :: "kid \<Rightarrow> world \<Rightarrow> world" where
  "key_on_activity k w =
     (if k_destroyed (keys w k) then w
      else
        let w1 = upd_key k (\<lambda>s. s\<lparr>k_idleTimeoutId := False\<rparr>) w
        in if k_IDLE_TIME (keys w1 k) \<le> 0 \<or> length (k_downStates (keys w1 k)) \<noteq> 0 then w1
           else upd_key k (\<lambda>s. s\<lparr>k_idleTimeoutId := True\<rparr>) w1)"

text \<open>
  \<open>key.emit(event, index, page, key)\<close>: the emission is logged and the key's own
  handler for the event, if it has one, runs at once.
\<close>

definition emit_key :: "kid \<Rightarrow> event \<Rightarrow> nat \<Rightarrow> pid option \<Rightarrow> kid option \<Rightarrow> world \<Rightarrow> world" where
  "emit_key k ev index page key w =
     (let w1 = push_out (Emit (OnKey k) ev index page key) w
      in case ev of
           Detach \<Rightarrow> key_on_detach k index page w1
         | Down \<Rightarrow> key_on_down k index page w1
         | Hold \<Rightarrow> key_on_hold k index page w1
         | Up \<Rightarrow> key_on_up k index page w1
         | ActivityDown \<Rightarrow> key_on_activity k w1
         | ActivityUp \<Rightarrow> key_on_activity k w1
         | _ \<Rightarrow> w1)"

text \<open>\<open>key?.emit(...)\<close>\<close>

definition emit_key_opt :: "kid option \<Rightarrow> event \<Rightarrow> nat \<Rightarrow> pid option \<Rightarrow> kid option \<Rightarrow> world \<Rightarrow> world" where
  "emit_key_opt ko ev index page key w =
     (case ko of None \<Rightarrow> w | Some k \<Rightarrow> emit_key k ev index page key w)"

text \<open>The callbacks of the key's hold, press and idle timers.\<close>

definition key_hold_timeout :: "kid \<Rightarrow> nat \<Rightarrow> pid option \<Rightarrow> world \<Rightarrow> world" where
  "key_hold_timeout k index page w =
     (let w1 = upd_key k (\<lambda>s.
                 s\<lparr>k_holdTimeoutIds := k_holdTimeoutIds s - {(index, page)},
                   k_holdStates := set_add (pair index page) (k_holdStates s)\<rparr>) w
      in emit_key k Hold index page (Some k) w1)"

definition key_press_timeout :: "kid \<Rightarrow> nat \<Rightarrow> pid option \<Rightarrow> world \<Rightarrow> world" where
  "key_press_timeout k index page w =
     (let w1 = upd_key k (\<lambda>s.
                 s\<lparr>k_pressTimeoutIds := k_pressTimeoutIds s - {(index, page)},
                   k_pressStates := set_delete (pair index page) (k_pressStates s)\<rparr>) w
      in key_draw k w1)"

definition key_idle_timeout :: "kid \<Rightarrow> world \<Rightarrow> world" where
  "key_idle_timeout k w =
     push_out (EmitIdle (OnKey k)) (upd_key k (\<lambda>s. s\<lparr>k_idleTimeoutId := False\<rparr>) w)"

text \<open>
  \<open>Key.isPressed(index, page)\<close>. An argument is a number, a page or \<open>undefined\<close>;
  \<open>checkValid\<close> lets \<open>undefined\<close> through, wants an integer index between 0 and
  \<open>KEY_COUNT - 1\<close> and a page of this device that is not destroyed.
\<close>

datatype jsarg = AUndefined | ANumber int | AFraction | AKey kid | APage pid | AOther

definition checkValidInteger :: "jsarg \<Rightarrow> int \<Rightarrow> int \<Rightarrow> bool \<Rightarrow> err option" where
  "checkValidInteger v lo hi allowUndefined =
     (case v of
        AUndefined \<Rightarrow> if allowUndefined then None else Some TypeError
      | ANumber n \<Rightarrow> if n < lo \<or> n > hi then Some RangeError else None
      | _ \<Rightarrow> Some TypeError)"

definition checkValidPage :: "world \<Rightarrow> jsarg \<Rightarrow> bool \<Rightarrow> err option" where
  "checkValidPage w v allowUndefined =
     (case v of
        AUndefined \<Rightarrow> if allowUndefined then None else Some TypeError
      | APage p \<Rightarrow> if p_destroyed (pages w p) then Some TypeError else None
      | _ \<Rightarrow> Some TypeError)"

definition checkValidKey :: "world \<Rightarrow> jsarg \<Rightarrow> bool \<Rightarrow> bool \<Rightarrow> err option" where
  "checkValidKey w v allowUndefined allowDestroyed =
     (case v of
        AUndefined \<Rightarrow> if allowUndefined then None else Some TypeError
      | AKey k \<Rightarrow> if \<not> allowDestroyed \<and> k_destroyed (keys w k) then Some TypeError else None
      | _ \<Rightarrow> Some TypeError)"

definition arg_val :: "jsarg \<Rightarrow> jsval" where
  "arg_val v = (case v of ANumber n \<Rightarrow> JNum n | APage p \<Rightarrow> JObj p | _ \<Rightarrow> JUndefined)"

definition isPressed :: "world \<Rightarrow> kid \<Rightarrow> jsarg \<Rightarrow> jsarg \<Rightarrow> err + bool" where
  "isPressed w k index page =
     (if k_destroyed (keys w k) then Inl DestroyedError
      else case checkValidInteger index 0 (int (d_KEY_COUNT (deck w)) - 1) True of
        Some e \<Rightarrow> Inl e
      | None \<Rightarrow>
          (case checkValidPage w page True of
             Some e \<Rightarrow> Inl e
           | None \<Rightarrow> Inr (set_wildHas [arg_val index, arg_val page] (k_pressStates (keys w k)))))"

section \<open>Page: the interaction handlers (page.js)\<close>

definition page_draw :: "pid \<Rightarrow> world \<Rightarrow> world" where
  "page_draw p w = (if p_destroyed (pages w p) then w else push_out (DrawPage p) w)"

text \<open>\<open>typeof key.HOLD_TIME !== 'number'\<close> for a key that may be \<open>undefined\<close>.\<close>

definition key_inherits_hold :: "world \<Rightarrow> kid option \<Rightarrow> bool" where
  "key_inherits_hold w ko =
     (case ko of None \<Rightarrow> False | Some k \<Rightarrow> k_HOLD_TIME (keys w k) = None)"

definition page_on_down :: "pid \<Rightarrow> nat \<Rightarrow> world \<Rightarrow> world" where
  "page_on_down p index w =
     (if p_destroyed (pages w p) then w
      else
        let w1 = upd_page p (\<lambda>s. s\<lparr>p_holdTimeoutIds := (p_holdTimeoutIds s)(index := None)\<rparr>) w;
            key = map_of (p_keys (pages w1 p)) index;
            w2 = upd_page p (\<lambda>s. s\<lparr>p_downIndexes := insert index (p_downIndexes s),
                                     p_holdIndexes := p_holdIndexes s - {index}\<rparr>) w1
        in case p_HOLD_TIME (pages w2 p) of
             None \<Rightarrow> w2
           | Some h \<Rightarrow>
               if h \<le> 0 then w2
               else upd_page p (\<lambda>s. s\<lparr>p_holdTimeoutIds :=
                      (p_holdTimeoutIds s)(index \<mapsto> key)\<rparr>) w2)"

definition page_on_hold :: "pid \<Rightarrow> nat \<Rightarrow> world \<Rightarrow> world" where
  "page_on_hold p index w =
     (if p_destroyed (pages w p) then w
      else if p_HOLD_TIME (pages w p) \<noteq> None then w
      else upd_page p (\<lambda>s. s\<lparr>p_holdIndexes := insert index (p_holdIndexes s)\<rparr>) w)"

definition page_on_up :: "pid \<Rightarrow> nat \<Rightarrow> world \<Rightarrow> world" where
  "page_on_up p index w =
     (if p_destroyed (pages w p) then w
      else
        let w1 = upd_page p (\<lambda>s. s\<lparr>p_holdTimeoutIds := (p_holdTimeoutIds s)(index := None)\<rparr>) w;
            key = map_of (p_keys (pages w1 p)) index;
            held = (index \<in> p_holdIndexes (pages w1 p));
            w2 = upd_page p (\<lambda>s. s\<lparr>p_downIndexes := p_downIndexes s - {index},
                                     p_holdIndexes := p_holdIndexes s - {index}\<rparr>) w1
        in if p_HOLD_TIME (pages w2 p) = None then w2
           else
             let w3 = push_out (Emit (OnPage p) (if held then Held else Click) index (Some p) key) w2
             in if key_inherits_hold w3 key
                then emit_key_opt key (if held then Held else Click) index (Some p) key w3
                else w3)"

definition page_on_activity :: "pid \<Rightarrow> world \<Rightarrow> world" where
  "page_on_activity p w =
     (if p_destroyed (pages w p) then w
      else
        let w1 = upd_page p (\<lambda>s. s\<lparr>p_idleTimeoutId := False\<rparr>) w
        in if p_IDLE_TIME (pages w1 p) \<le> 0 \<or> p_downIndexes (pages w1 p) \<noteq> {} then w1
           else upd_page p (\<lambda>s. s\<lparr>p_idleTimeoutId := True\<rparr>) w1)"

definition emit_page :: "pid \<Rightarrow> event \<Rightarrow> nat \<Rightarrow> pid option \<Rightarrow> kid option \<Rightarrow> world \<Rightarrow> world" where
  "emit_page p ev index page key w =
     (let w1 = push_out (Emit (OnPage p) ev index page key) w
      in case ev of
           Down \<Rightarrow> page_on_down p index w1
         | Hold \<Rightarrow> page_on_hold p index w1
         | Up \<Rightarrow> page_on_up p index w1
         | ActivityDown \<Rightarrow> page_on_activity p w1
         | ActivityUp \<Rightarrow> page_on_activity p w1
         | _ \<Rightarrow> w1)"

definition emit_page_opt :: "pid option \<Rightarrow> event \<Rightarrow> nat \<Rightarrow> pid option \<Rightarrow> kid option \<Rightarrow> world \<Rightarrow> world" where
  "emit_page_opt po ev index page key w =
     (case po of None \<Rightarrow> w | Some p \<Rightarrow> emit_page p ev index page key w)"

text \<open>
  The callback of the page's hold timer for \<open>index\<close>, with the key its closure captured
  when the button went down.
\<close>

definition page_hold_timeout :: "pid \<Rightarrow> nat \<Rightarrow> kid option \<Rightarrow> world \<Rightarrow> world" where
  "page_hold_timeout p index key w =
     (let w1 = upd_page p (\<lambda>s. s\<lparr>p_holdTimeoutIds := (p_holdTimeoutIds s)(index := None),
                                  p_holdIndexes := insert index (p_holdIndexes s)\<rparr>) w;
          w2 = emit_page p Hold index (Some p) key w1
      in if key_inherits_hold w2 key then emit_key_opt key Hold index (Some p) key w2 else w2)"

definition page_idle_timeout :: "pid \<Rightarrow> world \<Rightarrow> world" where
  "page_idle_timeout p w =
     push_out (EmitIdle (OnPage p)) (upd_page p (\<lambda>s. s\<lparr>p_idleTimeoutId := False\<rparr>) w)"

section \<open>StreamDeck: the hardware transitions (streamdeck.js)\<close>

definition deck_on_activity :: "world \<Rightarrow> world" where
  "deck_on_activity w =
     (if d_destroyed (deck w) then w
      else
        let w1 = upd_deck (\<lambda>s. s\<lparr>d_idleTimeoutId := False\<rparr>) w
        in if d_IDLE_TIME (deck w1) \<le> 0 \<or> dom (d_downKeys (deck w1)) \<noteq> {} then w1
           else upd_deck (\<lambda>s. s\<lparr>d_idleTimeoutId := True\<rparr>) w1)"

text \<open>The device listens to its own \<open>activity\<close> event only.\<close>

definition emit_deck :: "event \<Rightarrow> nat \<Rightarrow> pid option \<Rightarrow> kid option \<Rightarrow> world \<Rightarrow> world" where
  "emit_deck ev index page key w =
     (let w1 = push_out (Emit OnDeck ev index page key) w
      in case ev of
           ActivityDown \<Rightarrow> deck_on_activity w1
         | ActivityUp \<Rightarrow> deck_on_activity w1
         | _ \<Rightarrow> w1)"

text \<open>\<open>typeof page.HOLD_TIME !== 'number'\<close> for a page that may be \<open>undefined\<close>.\<close>

definition page_inherits_hold :: "world \<Rightarrow> pid option \<Rightarrow> bool" where
  "page_inherits_hold w po =
     (case po of None \<Rightarrow> False | Some p \<Rightarrow> p_HOLD_TIME (pages w p) = None)"

text \<open>The callback of the device's hold timer, with the page and key captured on down.\<close>

definition deck_hold_timeout :: "nat \<Rightarrow> pid option \<Rightarrow> kid option \<Rightarrow> world \<Rightarrow> world" where
  "deck_hold_timeout index page key w =
     (let w1 = upd_deck (\<lambda>s. s\<lparr>d_holdTimeoutIds := (d_holdTimeoutIds s)(index := None),
                                d_holdIndexes := insert index (d_holdIndexes s)\<rparr>) w;
          w2 = emit_deck Hold index page key w1
      in if page_inherits_hold w2 page
         then
           let w3 = emit_page_opt page Hold index page key w2
           in if key_inherits_hold w3 key then emit_key_opt key Hold index page key w3 else w3
         else w2)"

text \<open>The listener on the hardware's \<open>down\<close> event.\<close>

definition hw_down :: "nat \<Rightarrow> world \<Rightarrow> world" where
  "hw_down index w =
     (if d_destroyed (deck w) then w
      else
        let w1 = upd_deck (\<lambda>s. s\<lparr>d_holdTimeoutIds := (d_holdTimeoutIds s)(index := None)\<rparr>) w;
            page = d_focusedPage (deck w1);
            key = (case page of None \<Rightarrow> None | Some p \<Rightarrow> map_of (p_keys (pages w1 p)) index);
            w2 = upd_deck (\<lambda>s. s\<lparr>d_downPages := (d_downPages s)(index \<mapsto> page),
                                   d_downKeys := (d_downKeys s)(index \<mapsto> key),
                                   d_holdIndexes := d_holdIndexes s - {index}\<rparr>) w1;
            w3 = emit_deck Down index page key w2;
            w4 = emit_page_opt page Down index page key w3;
            w5 = emit_key_opt key Down index page key w4;
            w6 = (if d_HOLD_TIME (deck w5) > 0
                  then upd_deck (\<lambda>s. s\<lparr>d_holdTimeoutIds :=
                         (d_holdTimeoutIds s)(index \<mapsto> (page, key))\<rparr>) w5
                  else w5);
            w7 = emit_deck ActivityDown index page key w6;
            w8 = emit_page_opt page ActivityDown index page key w7
        in emit_key_opt key ActivityDown index page key w8)"

text \<open>The listener on the hardware's \<open>up\<close> event.\<close>

definition hw_up :: "nat \<Rightarrow> world \<Rightarrow> world" where
  "hw_up index w =
     (if d_destroyed (deck w) then w
      else
        let w1 = upd_deck (\<lambda>s. s\<lparr>d_holdTimeoutIds := (d_holdTimeoutIds s)(index := None)\<rparr>) w;
            page = (case d_downPages (deck w1) index of None \<Rightarrow> None | Some po \<Rightarrow> po);
            key = (case d_downKeys (deck w1) index of None \<Rightarrow> None | Some ko \<Rightarrow> ko);
            held = (index \<in> d_holdIndexes (deck w1));
            w2 = upd_deck (\<lambda>s. s\<lparr>d_downPages := (d_downPages s)(index := None),
                                   d_downKeys := (d_downKeys s)(index := None),
                                   d_holdIndexes := d_holdIndexes s - {index}\<rparr>) w1;
            w3 = emit_deck Up index page key w2;
            w4 = emit_page_opt page Up index page key w3;
            w5 = emit_key_opt key Up index page key w4;
            w6 = emit_deck (if held then Held else Click) index page key w5;
            w7 = (if page_inherits_hold w6 page
                  then
                    let w6a = emit_page_opt page (if held then Held else Click) index page key w6
                    in if key_inherits_hold w6a key
                       then emit_key_opt key (if held then Held else Click) index page key w6a
                       else w6a
                  else w6);
            w8 = emit_deck ActivityUp index page key w7;
            w9 = emit_page_opt page ActivityUp index page key w8
        in emit_key_opt key ActivityUp index page key w9)"

definition deck_idle_timeout :: "world \<Rightarrow> world" where
  "deck_idle_timeout w =
     push_out (EmitIdle OnDeck) (upd_deck (\<lambda>s. s\<lparr>d_idleTimeoutId := False\<rparr>) w)"

section \<open>Page: attaching and detaching keys (page.js)\<close>

definition checkPageDestroyed :: "world \<Rightarrow> pid \<Rightarrow> err option" where
  "checkPageDestroyed w p = (if p_destroyed (pages w p) then Some DestroyedError else None)"

text \<open>\<open>typeof v === 'number'\<close>\<close>

definition is_number :: "jsarg \<Rightarrow> bool" where
  "is_number v = (case v of ANumber n \<Rightarrow> True | AFraction \<Rightarrow> True | _ \<Rightarrow> False)"

text \<open>
  The first part of \<open>attachKey\<close> and \<open>detachKey\<close> for the call shapes
  \<open>(row, column, key)\<close> and \<open>(index, key)\<close>: the checks of the numbers and the slot
  index. A number that passed the checks is an integer within its bounds, so the index
  \<open>column - 1 + (row - 1) * PANEL_COLUMN_COUNT\<close> is not negative and is kept as a
  natural number.
\<close>

definition slot_of_row_column :: "world \<Rightarrow> jsarg \<Rightarrow> jsarg \<Rightarrow> err + nat" where
  "slot_of_row_column w row column =
     (case checkValidInteger row 1 (int (d_PANEL_ROW_COUNT (deck w))) False of
        Some e \<Rightarrow> Inl e
      | None \<Rightarrow>
          (case checkValidInteger column 1 (int (d_PANEL_COLUMN_COUNT (deck w))) False of
             Some e \<Rightarrow> Inl e
           | None \<Rightarrow>
               (case (row, column) of
                  (ANumber r, ANumber c) \<Rightarrow>
                    Inr (nat (c - 1 + (r - 1) * int (d_PANEL_COLUMN_COUNT (deck w))))
                | _ \<Rightarrow> Inl TypeError)))"

definition slot_of_index :: "world \<Rightarrow> jsarg \<Rightarrow> err + nat" where
  "slot_of_index w index =
     (case checkValidInteger index 0 (int (d_KEY_COUNT (deck w)) - 1) False of
        Some e \<Rightarrow> Inl e
      | None \<Rightarrow> (case index of ANumber n \<Rightarrow> Inr (nat n) | _ \<Rightarrow> Inl TypeError))"

text \<open>
  The loop of \<open>detachKey\<close> over \<open>this._keys.entries()\<close>: the first attachment that
  agrees with the index (when one is given) and with the key (when one is given).
\<close>

fun find_attachment :: "nat option \<Rightarrow> kid option \<Rightarrow> (nat \<times> kid) list \<Rightarrow> (nat \<times> kid) option" where
  "find_attachment index key [] = None"
| "find_attachment index key ((attachedIndex, attachedKey) # rest) =
     (if index \<noteq> None \<and> Some attachedIndex \<noteq> index then find_attachment index key rest
      else if key \<noteq> None \<and> Some attachedKey \<noteq> key then find_attachment index key rest
      else Some (attachedIndex, attachedKey))"

text \<open>
  The second part of \<open>detachKey\<close>, once the index and the key argument are known. The
  attachment found is deleted and \<open>detach\<close> is emitted on the device and on the page;
  the third emission is written \<open>key.emit\<close>, on the key argument, which raises a
  \<open>TypeError\<close> when the call gave no key. \<open>this.draw()\<close> ends the method.
\<close>

definition detach_loop :: "pid \<Rightarrow> nat option \<Rightarrow> kid option \<Rightarrow> world \<Rightarrow> err option \<times> world" where
  "detach_loop p index key w =
     (case find_attachment index key (p_keys (pages w p)) of
        None \<Rightarrow> (None, page_draw p w)
      | Some (attachedIndex, attachedKey) \<Rightarrow>
          let w1 = upd_page p (\<lambda>s. s\<lparr>p_keys := AList.delete attachedIndex (p_keys s)\<rparr>) w;
              w2 = emit_deck Detach attachedIndex (Some p) (Some attachedKey) w1;
              w3 = emit_page p Detach attachedIndex (Some p) (Some attachedKey) w2
          in case key of
               None \<Rightarrow> (Some TypeError, w3)
             | Some k \<Rightarrow>
                 (None, page_draw p (emit_key k Detach attachedIndex (Some p) (Some attachedKey) w3)))"

definition key_of_arg :: "jsarg \<Rightarrow> kid option" where
  "key_of_arg v = (case v of AKey k \<Rightarrow> Some k | _ \<Rightarrow> None)"

definition detachKey :: "pid \<Rightarrow> jsarg \<Rightarrow> jsarg \<Rightarrow> jsarg \<Rightarrow> world \<Rightarrow> err option \<times> world" where
  "detachKey p row column key w =
     (case checkPageDestroyed w p of
        Some e \<Rightarrow> (Some e, w)
      | None \<Rightarrow>
          if is_number row \<and> is_number column then
            (case slot_of_row_column w row column of
               Inl e \<Rightarrow> (Some e, w)
             | Inr index \<Rightarrow>
                 (case checkValidKey w key True True of
                    Some e \<Rightarrow> (Some e, w)
                  | None \<Rightarrow> detach_loop p (Some index) (key_of_arg key) w))
          else if is_number row then
            (case slot_of_index w row of
               Inl e \<Rightarrow> (Some e, w)
             | Inr index \<Rightarrow>
                 (case checkValidKey w column True True of
                    Some e \<Rightarrow> (Some e, w)
                  | None \<Rightarrow> detach_loop p (Some index) (key_of_arg column) w))
          else
            (case checkValidKey w row False True of
               Some e \<Rightarrow> (Some e, w)
             | None \<Rightarrow> detach_loop p None (key_of_arg row) w))"

text \<open>The first free slot, for \<open>attachKey(key)\<close>.\<close>

definition first_free_slot :: "world \<Rightarrow> pid \<Rightarrow> nat option" where
  "first_free_slot w p =
     List.find (\<lambda>i. map_of (p_keys (pages w p)) i = None) [0 ..< d_KEY_COUNT (deck w)]"

text \<open>
  The second part of \<open>attachKey\<close>: check the key, detach whatever holds the slot with
  \<open>this.detachKey(index)\<close> (an error of that call leaves \<open>attachKey\<close> at once), store the
  key, emit \<open>attach\<close> on the device, the page and the key, and draw the key.
\<close>

definition attach_at :: "pid \<Rightarrow> nat \<Rightarrow> jsarg \<Rightarrow> world \<Rightarrow> err option \<times> world" where
  "attach_at p index key w =
     (case checkValidKey w key False False of
        Some e \<Rightarrow> (Some e, w)
      | None \<Rightarrow>
          (case key_of_arg key of
             None \<Rightarrow> (Some TypeError, w)
           | Some k \<Rightarrow>
               let (e, w1) =
                     (if map_of (p_keys (pages w p)) index \<noteq> None
                      then detachKey p (ANumber (int index)) AUndefined AUndefined w
                      else (None, w))
               in case e of
                    Some e' \<Rightarrow> (Some e', w1)
                  | None \<Rightarrow>
                      let w2 = upd_page p (\<lambda>s. s\<lparr>p_keys :=
                                 AList.update index k (p_keys s)\<rparr>) w1;
                          w3 = emit_deck Attach index (Some p) (Some k) w2;
                          w4 = emit_page p Attach index (Some p) (Some k) w3;
                          w5 = emit_key k Attach index (Some p) (Some k) w4
                      in (None, key_draw k w5)))"

definition attachKey :: "pid \<Rightarrow> jsarg \<Rightarrow> jsarg \<Rightarrow> jsarg \<Rightarrow> world \<Rightarrow> err option \<times> world" where
  "attachKey p row column key w =
     (case checkPageDestroyed w p of
        Some e \<Rightarrow> (Some e, w)
      | None \<Rightarrow>
          if is_number row \<and> is_number column then
            (case slot_of_row_column w row column of
               Inl e \<Rightarrow> (Some e, w)
             | Inr index \<Rightarrow> attach_at p index key w)
          else if is_number row then
            (case slot_of_index w row of
               Inl e \<Rightarrow> (Some e, w)
             | Inr index \<Rightarrow> attach_at p index column w)
          else
            (case first_free_slot w p of
               None \<Rightarrow> (Some NoFreeSlotError, w)
             | Some i \<Rightarrow> attach_at p i row w))"

section \<open>Runs of one device\<close>

text \<open>
  What can happen to a device from outside: the hardware reports a button down or up, a
  pending timer fires, or the caller attaches or detaches a key. A timer fires only while
  it is pending, which is while the object's map of timeout ids has an entry for it.
\<close>

datatype step =
    HwDown nat
  | HwUp nat
  | DeckHoldTimeout nat
  | PageHoldTimeout pid nat
  | KeyHoldTimeout kid nat "pid option"
  | KeyPressTimeout kid nat "pid option"
  | AttachKey pid jsarg jsarg jsarg
  | DetachKey pid jsarg jsarg jsarg

definition do_step :: "step \<Rightarrow> world \<Rightarrow> world" where
  "do_step st w =
     (case st of
        HwDown index \<Rightarrow> hw_down index w
      | HwUp index \<Rightarrow> hw_up index w
      | DeckHoldTimeout index \<Rightarrow>
          (case d_holdTimeoutIds (deck w) index of
             None \<Rightarrow> w
           | Some (page, key) \<Rightarrow> deck_hold_timeout index page key w)
      | PageHoldTimeout p index \<Rightarrow>
          (case p_holdTimeoutIds (pages w p) index of
             None \<Rightarrow> w
           | Some key \<Rightarrow> page_hold_timeout p index key w)
      | KeyHoldTimeout k index page \<Rightarrow>
          (if (index, page) \<in> k_holdTimeoutIds (keys w k)
           then key_hold_timeout k index page w else w)
      | KeyPressTimeout k index page \<Rightarrow>
          (if (index, page) \<in> k_pressTimeoutIds (keys w k)
           then key_press_timeout k index page w else w)
      | AttachKey p row column key \<Rightarrow> snd (attachKey p row column key w)
      | DetachKey p row column key \<Rightarrow> snd (detachKey p row column key w))"

fun run :: "step list \<Rightarrow> world \<Rightarrow> world" where
  "run [] w = w"
| "run (st # sts) w = run sts (do_step st w)"

text \<open>
  The objects as their constructors leave them, and a device with one page and one key.
\<close>

definition new_key :: "nat option \<Rightarrow> nat \<Rightarrow> nat \<Rightarrow> key_obj" where
  "new_key holdTime pressTime idleTime =
     \<lparr>k_destroyed = False, k_HOLD_TIME = holdTime, k_PRESS_TIME = pressTime,
      k_IDLE_TIME = idleTime, k_holdTimeoutIds = {}, k_pressTimeoutIds = {},
      k_idleTimeoutId = False, k_downStates = [], k_holdStates = [], k_pressStates = []\<rparr>"

definition new_page :: "nat option \<Rightarrow> nat \<Rightarrow> page_obj" where
  "new_page holdTime idleTime =
     \<lparr>p_destroyed = False, p_HOLD_TIME = holdTime, p_IDLE_TIME = idleTime,
      p_holdTimeoutIds = Map.empty, p_idleTimeoutId = False, p_downIndexes = {},
      p_holdIndexes = {}, p_keys = []\<rparr>"

definition new_deck :: "nat \<Rightarrow> nat \<Rightarrow> nat \<Rightarrow> deck_obj" where
  "new_deck rows columns holdTime =
     \<lparr>d_destroyed = False, d_KEY_COUNT = rows * columns, d_PANEL_ROW_COUNT = rows,
      d_PANEL_COLUMN_COUNT = columns, d_HOLD_TIME = holdTime, d_IDLE_TIME = 10000,
      d_holdTimeoutIds = Map.empty, d_idleTimeoutId = False, d_downPages = Map.empty,
      d_downKeys = Map.empty, d_holdIndexes = {}, d_focusedPage = None\<rparr>"

text \<open>
  A 3 by 5 device whose page 0 has focus, with every key's and page's hold time given by
  \<open>keyHold\<close> and \<open>pageHold\<close>, and nothing attached.
\<close>

definition new_world :: "nat \<Rightarrow> nat option \<Rightarrow> nat option \<Rightarrow> world" where
  "new_world deckHold pageHold keyHold =
     \<lparr>deck = (new_deck 3 5 deckHold)\<lparr>d_focusedPage := Some 0\<rparr>,
      pages = (\<lambda>p. new_page pageHold 10000),
      keys = (\<lambda>k. new_key keyHold 0 10000),
      out = []\<rparr>"

section \<open>Stating the interaction claims\<close>

text \<open>The \<open>click\<close> and \<open>held\<close> notifications emitted on one target.\<close>

fun is_outcome :: "target \<Rightarrow> effect \<Rightarrow> bool" where
  "is_outcome tgt (Emit t ev index page key) = (t = tgt \<and> (ev = Click \<or> ev = Held))"
| "is_outcome tgt (EmitIdle t) = False"
| "is_outcome tgt (DrawKey k) = False"
| "is_outcome tgt (DrawPage p) = False"

text \<open>
  The hold duration that governs a scope, as the claims speak of it: the key's own
  duration if it has one, otherwise the page's if it has one, otherwise the device's; for
  the page, its own or the device's. \<open>p\<close> is the page with focus and \<open>k\<close> the key at the
  pressed slot. \<open>scope_timer\<close> is the firing of the timer that belongs to that duration.
\<close>

fun scope_hold_time :: "world \<Rightarrow> pid \<Rightarrow> kid \<Rightarrow> target \<Rightarrow> nat" where
  "scope_hold_time w p k OnDeck = d_HOLD_TIME (deck w)"
| "scope_hold_time w p k (OnPage q) =
     (case p_HOLD_TIME (pages w p) of Some h \<Rightarrow> h | None \<Rightarrow> d_HOLD_TIME (deck w))"
| "scope_hold_time w p k (OnKey k') =
     (case k_HOLD_TIME (keys w k) of
        Some h \<Rightarrow> h
      | None \<Rightarrow> (case p_HOLD_TIME (pages w p) of Some h \<Rightarrow> h | None \<Rightarrow> d_HOLD_TIME (deck w)))"

fun scope_timer :: "world \<Rightarrow> nat \<Rightarrow> pid \<Rightarrow> kid \<Rightarrow> target \<Rightarrow> step" where
  "scope_timer w i p k OnDeck = DeckHoldTimeout i"
| "scope_timer w i p k (OnPage q) =
     (case p_HOLD_TIME (pages w p) of Some h \<Rightarrow> PageHoldTimeout p i | None \<Rightarrow> DeckHoldTimeout i)"
| "scope_timer w i p k (OnKey k') =
     (case k_HOLD_TIME (keys w k) of
        Some h \<Rightarrow> KeyHoldTimeout k i (Some p)
      | None \<Rightarrow>
          (case p_HOLD_TIME (pages w p) of
             Some h \<Rightarrow> PageHoldTimeout p i
           | None \<Rightarrow> DeckHoldTimeout i))"

text \<open>
  The state between a down and the matching up, for slot \<open>i\<close> of page \<open>p\<close> holding key
  \<open>k\<close>: what the three objects remember of the press, with \<open>fd\<close>, \<open>fp\<close> and \<open>fk\<close>
  saying whether the device's, the page's and the key's hold timer has fired. A timer is
  pending exactly when its hold time is positive and it has not fired.
\<close>

definition deck_pressed :: "nat \<Rightarrow> pid \<Rightarrow> kid \<Rightarrow> nat \<Rightarrow> bool \<Rightarrow> world \<Rightarrow> bool" where
  "deck_pressed i p k dh fd w \<longleftrightarrow>
     \<not> d_destroyed (deck w) \<and> d_HOLD_TIME (deck w) = dh \<and>
     d_downPages (deck w) i = Some (Some p) \<and> d_downKeys (deck w) i = Some (Some k) \<and>
     (i \<in> d_holdIndexes (deck w) \<longleftrightarrow> fd) \<and>
     d_holdTimeoutIds (deck w) i = (if 0 < dh \<and> \<not> fd then Some (Some p, Some k) else None)"

definition page_pressed :: "nat \<Rightarrow> pid \<Rightarrow> kid \<Rightarrow> nat option \<Rightarrow> bool \<Rightarrow> bool \<Rightarrow> world \<Rightarrow> bool" where
  "page_pressed i p k ph held fp w \<longleftrightarrow>
     \<not> p_destroyed (pages w p) \<and> p_HOLD_TIME (pages w p) = ph \<and>
     map_of (p_keys (pages w p)) i = Some k \<and>
     (i \<in> p_holdIndexes (pages w p) \<longleftrightarrow> held) \<and>
     p_holdTimeoutIds (pages w p) i =
       (if (\<exists>h. ph = Some h \<and> 0 < h) \<and> \<not> fp then Some (Some k) else None)"

definition key_pressed :: "nat \<Rightarrow> pid \<Rightarrow> kid \<Rightarrow> nat option \<Rightarrow> bool \<Rightarrow> bool \<Rightarrow> world \<Rightarrow> bool" where
  "key_pressed i p k kh held fk w \<longleftrightarrow>
     \<not> k_destroyed (keys w k) \<and> k_HOLD_TIME (keys w k) = kh \<and>
     (pair i (Some p) \<in> set (k_holdStates (keys w k)) \<longleftrightarrow> held) \<and>
     ((i, Some p) \<in> k_holdTimeoutIds (keys w k) \<longleftrightarrow> (\<exists>h. kh = Some h \<and> 0 < h) \<and> \<not> fk)"

text \<open>
  The three together. The page is marked held by its own timer if it has a hold time and
  by the device's otherwise; the key by its own timer if it has a hold time, and otherwise
  as the page is.
\<close>

definition pressed :: "nat \<Rightarrow> pid \<Rightarrow> kid \<Rightarrow> nat \<Rightarrow> nat option \<Rightarrow> nat option \<Rightarrow>
    bool \<Rightarrow> bool \<Rightarrow> bool \<Rightarrow> world \<Rightarrow> bool" where
  "pressed i p k dh ph kh fd fp fk w \<longleftrightarrow>
     deck_pressed i p k dh fd w \<and>
     page_pressed i p k ph (if ph = None then fd else fp) fp w \<and>
     key_pressed i p k kh (if kh \<noteq> None then fk else if ph = None then fd else fp) fk w"


text \<open>The \<open>hold\<close> and \<open>held\<close> notifications emitted on one key.\<close>

fun is_key_hold :: "kid \<Rightarrow> effect \<Rightarrow> bool" where
  "is_key_hold k (Emit t ev index page key) = (t = OnKey k \<and> (ev = Hold \<or> ev = Held))"
| "is_key_hold k (EmitIdle t) = False"
| "is_key_hold k (DrawKey k') = False"
| "is_key_hold k (DrawPage p) = False"

text \<open>
  A key whose hold time is 0 with no hold timer pending and no pair marked held, and the
  \<open>hold\<close> and \<open>held\<close> notifications it has emitted so far.
\<close>

definition hold_disabled :: "kid \<Rightarrow> effect list \<Rightarrow> world \<Rightarrow> bool" where
  "hold_disabled k n w \<longleftrightarrow>
     k_HOLD_TIME (keys w k) = Some 0 \<and> k_holdTimeoutIds (keys w k) = {} \<and>
     k_holdStates (keys w k) = [] \<and> filter (is_key_hold k) (out w) = n"


section \<open>Verification: the animation clock\<close>

lemma animating_position:
  assumes "animating F N j img"
  shows "i_currentFrame img = j mod F" and "i_currentLoop img = j div F"
  using assms by (simp_all add: animating_def)

lemma nextFrame_advance:
  assumes "animating F N j img" "1 < F" "Suc j < (N + 1) * F"
  shows "animating F N (Suc j) (nextFrame img) \<and> i_animate (nextFrame img) = i_animate img"
proof (cases "Suc (i_currentFrame img) < F")
  case True
  then show ?thesis using assms
    by (simp add: animating_def nextFrame_def Let_def rearm_def emitFrameUpdated_def)
next
  case False
  with assms(1) have cf: "Suc (i_currentFrame img) = F" by (simp add: animating_def)
  have "i_currentLoop img < N"
  proof (rule ccontr)
    assume "\<not> i_currentLoop img < N"
    then have "N * F \<le> i_currentLoop img * F" by simp
    moreover have "Suc j = i_currentLoop img * F + F" using assms(1) cf by (simp add: animating_def)
    ultimately show False using assms(3) by simp
  qed
  then show ?thesis using assms cf
    by (auto simp add: animating_def nextFrame_def Let_def rearm_def emitFrameUpdated_def)
qed

lemma nextFrame_halt:
  assumes "animating F N j img" "1 < F" "Suc j = (N + 1) * F" "0 < N"
  shows "nextFrame img = img\<lparr>i_nextFrameTimeoutId := False, i_animate := Some False\<rparr>"
    and "i_currentFrame img = F - 1" and "i_currentLoop img = N"
proof -
  let ?c = "i_currentFrame img" and ?l = "i_currentLoop img"
  have inv: "?c < F" "j = ?l * F + ?c" using assms(1) by (simp_all add: animating_def)
  have eq: "?l * F + Suc ?c = N * F + F" using inv(2) assms(3) by simp
  have "\<not> ?l < N"
  proof
    assume "?l < N"
    then have "Suc ?l * F \<le> N * F" by (simp only: Suc_leI mult_le_mono1)
    then show False using eq inv(1) by simp
  qed
  moreover have "\<not> N < ?l"
  proof
    assume "N < ?l"
    then have "Suc N * F \<le> ?l * F" by (simp only: Suc_leI mult_le_mono1)
    then show False using eq by simp
  qed
  ultimately show cl: "?l = N" by simp
  with eq show cf: "?c = F - 1" by simp
  show "nextFrame img = img\<lparr>i_nextFrameTimeoutId := False, i_animate := Some False\<rparr>"
    using assms cf cl by (simp add: animating_def nextFrame_def Let_def)
qed

lemma nextFrame_funpow:
  assumes "animating F N 0 img" "1 < F"
  shows "j < (N + 1) * F \<Longrightarrow>
           animating F N j ((nextFrame ^^ j) img) \<and> i_animate ((nextFrame ^^ j) img) = i_animate img"
proof (induction j)
  case 0
  then show ?case using assms by simp
next
  case (Suc j)
  then have "animating F N j ((nextFrame ^^ j) img)"
    and "i_animate ((nextFrame ^^ j) img) = i_animate img" by simp_all
  then show ?case
    using nextFrame_advance[of F N j "(nextFrame ^^ j) img"] assms(2) Suc.prems by simp
qed

lemma nextFrame_halted: "halted img \<Longrightarrow> nextFrame img = img"
  by (cases img) (auto simp add: halted_def nextFrame_def Let_def)

lemma nextFrame_halted_funpow: "halted img \<Longrightarrow> (nextFrame ^^ m) img = img"
  by (induction m) (simp_all add: nextFrame_halted)

lemma tick_halted_funpow: "halted img \<Longrightarrow> (tick ^^ m) img = img"
  by (induction m) (simp_all add: tick_def halted_def)


text \<open>
  Where the code halts. For an image with \<open>F > 1\<close> frames, all loaded, and loop count
  \<open>N > 0\<close>, started at frame 0 of loop 0: each of the first \<open>(N + 1) * F - 1\<close> calls of
  \<open>nextFrame\<close> advances (call \<open>j\<close> leaves frame \<open>j mod F\<close> of loop \<open>j div F\<close>,
  wrapping to frame 0 with the loop counter incremented, and the animate flag untouched);
  call number \<open>(N + 1) * F\<close> halts the animation: it clears the animate flag, arms no
  timer and leaves the image on frame \<open>F - 1\<close> of loop \<open>N\<close>; from then on neither a
  direct \<open>nextFrame\<close> nor a scheduled tick changes anything. \<open>nextFrame\<close> compares
  \<open>nextLoop\<close> with \<open>_loopCount\<close> before it increments \<open>nextLoop\<close>, so an image whose
  loop count is \<open>N\<close> is played \<open>N + 1\<close> times.
\<close>

theorem nextFrame_halts_after_last_loop:
  assumes "\<not> i_destroyed img" and "i_frameCount img = F" and "length (i_frames img) = F"
    and "i_loopCount img = N" and "i_currentFrame img = 0" and "i_currentLoop img = 0"
    and "1 < F" and "0 < N"
  shows "(\<forall>j. j < (N + 1) * F \<longrightarrow>
            i_currentFrame ((nextFrame ^^ j) img) = j mod F \<and>
            i_currentLoop ((nextFrame ^^ j) img) = j div F \<and>
            i_animate ((nextFrame ^^ j) img) = i_animate img) \<and>
         i_animate ((nextFrame ^^ ((N + 1) * F)) img) = Some False \<and>
         \<not> i_nextFrameTimeoutId ((nextFrame ^^ ((N + 1) * F)) img) \<and>
         i_currentFrame ((nextFrame ^^ ((N + 1) * F)) img) = F - 1 \<and>
         i_currentLoop ((nextFrame ^^ ((N + 1) * F)) img) = N \<and>
         (\<forall>m. (nextFrame ^^ m) ((nextFrame ^^ ((N + 1) * F)) img) = (nextFrame ^^ ((N + 1) * F)) img \<and>
              (tick ^^ m) ((nextFrame ^^ ((N + 1) * F)) img) = (nextFrame ^^ ((N + 1) * F)) img)"
proof -
  have start: "animating F N 0 img" using assms by (simp add: animating_def)
  have run: "animating F N j ((nextFrame ^^ j) img) \<and> i_animate ((nextFrame ^^ j) img) = i_animate img"
    if "j < (N + 1) * F" for j
    using nextFrame_funpow[OF start \<open>1 < F\<close> that] .
  let ?k = "(N + 1) * F - 1"
  let ?pre = "(nextFrame ^^ ?k) img"
  let ?fin = "(nextFrame ^^ ((N + 1) * F)) img"
  have k: "Suc ?k = (N + 1) * F" using \<open>1 < F\<close> by simp
  have pre: "animating F N ?k ?pre" using run[of ?k] k by simp
  have "?fin = nextFrame ?pre" using k by (metis funpow.simps(2) o_apply)
  also have "\<dots> = ?pre\<lparr>i_nextFrameTimeoutId := False, i_animate := Some False\<rparr>"
    using nextFrame_halt(1)[OF pre \<open>1 < F\<close> k \<open>0 < N\<close>] .
  finally have fin: "?fin = ?pre\<lparr>i_nextFrameTimeoutId := False, i_animate := Some False\<rparr>" .
  have cf: "i_currentFrame ?pre = F - 1" and cl: "i_currentLoop ?pre = N"
    using nextFrame_halt(2,3)[OF pre \<open>1 < F\<close> k \<open>0 < N\<close>] by simp_all
  have fc: "i_frameCount ?pre = F" and lc: "i_loopCount ?pre = N"
    using pre by (simp_all add: animating_def)
  have h: "halted ?fin"
    unfolding fin using cf cl fc lc \<open>1 < F\<close> \<open>0 < N\<close> by (simp add: halted_def)
  have "\<forall>j. j < (N + 1) * F \<longrightarrow>
            i_currentFrame ((nextFrame ^^ j) img) = j mod F \<and>
            i_currentLoop ((nextFrame ^^ j) img) = j div F \<and>
            i_animate ((nextFrame ^^ j) img) = i_animate img"
    using run animating_position by blast
  moreover have "i_animate ?fin = Some False" "\<not> i_nextFrameTimeoutId ?fin"
    "i_currentFrame ?fin = F - 1" "i_currentLoop ?fin = N"
    unfolding fin using cf cl by simp_all
  moreover have "\<forall>m. (nextFrame ^^ m) ?fin = ?fin \<and> (tick ^^ m) ?fin = ?fin"
    using h nextFrame_halted_funpow tick_halted_funpow by blast
  ultimately show ?thesis by blast
qed

theorem nextFrame_halts_after_last_loop_witness:
  "i_animate ((nextFrame ^^ 4) (loaded_image [(), ()] 1)) = Some False \<and>
   \<not> i_nextFrameTimeoutId ((nextFrame ^^ 4) (loaded_image [(), ()] 1)) \<and>
   i_currentFrame ((nextFrame ^^ 4) (loaded_image [(), ()] 1)) = 1 \<and>
   i_currentLoop ((nextFrame ^^ 4) (loaded_image [(), ()] 1)) = 1 \<and>
   i_currentFrame ((nextFrame ^^ 3) (loaded_image [(), ()] 1)) = 1 \<and>
   i_currentLoop ((nextFrame ^^ 3) (loaded_image [(), ()] 1)) = 1"
  using nextFrame_halts_after_last_loop [of "loaded_image [(), ()] 1" 2 1]
  by (simp add: loaded_image_def)

text \<open>
  Claim C1 fails on the code. The claim has the animation halt after \<open>N * F\<close> advances,
  that is after \<open>loopCount\<close> passes over the frames. For an image of \<open>F = 2\<close> frames,
  both loaded, that loops \<open>N = 1\<close> time (a play-once animation), animating from frame 0
  of loop 0 with one observer: after \<open>1 * 2\<close> calls of \<open>nextFrame\<close> the image is on
  frame 0 of loop 1, still animating with its timer armed, two \<open>frameUpdated\<close> events
  emitted, and the next scheduled tick shows frame 1 a second time; the animation halts
  only at call \<open>(1 + 1) * 2\<close>, after three \<open>frameUpdated\<close> events: two passes for a
  loop count of one.
\<close>

theorem nextFrame_not_halted_after_N_times_F:
  "i_animate ((nextFrame ^^ (1 * 2)) (loaded_image [(), ()] 1)) = Some True \<and>
   i_nextFrameTimeoutId ((nextFrame ^^ (1 * 2)) (loaded_image [(), ()] 1)) \<and>
   i_currentFrame ((nextFrame ^^ (1 * 2)) (loaded_image [(), ()] 1)) = 0 \<and>
   i_currentLoop ((nextFrame ^^ (1 * 2)) (loaded_image [(), ()] 1)) = 1 \<and>
   i_emitted ((nextFrame ^^ (1 * 2)) (loaded_image [(), ()] 1)) = [FrameUpdated, FrameUpdated] \<and>
   i_currentFrame (tick ((nextFrame ^^ (1 * 2)) (loaded_image [(), ()] 1))) = 1 \<and>
   i_animate (tick ((nextFrame ^^ (1 * 2)) (loaded_image [(), ()] 1))) = Some True \<and>
   i_animate ((tick ^^ 2) ((nextFrame ^^ (1 * 2)) (loaded_image [(), ()] 1))) = Some False \<and>
   i_emitted ((tick ^^ 2) ((nextFrame ^^ (1 * 2)) (loaded_image [(), ()] 1))) =
     [FrameUpdated, FrameUpdated, FrameUpdated]"
  by (simp add: numeral_2_eq_2 loaded_image_def nextFrame_def tick_def rearm_def
      emitFrameUpdated_def Let_def)

section \<open>Verification: the current frame\<close>

text \<open>
  Claim C6. On an image that is not destroyed, \<open>getFrame\<close> returns normally (it is a
  total, synchronous read of the frame list): the frame at the current index when that
  frame is loaded, otherwise the last frame loaded so far, otherwise \<open>null\<close>.
\<close>

theorem getFrame_never_throws:
  assumes "\<not> i_destroyed img"
  shows "getFrame img =
           Inr (if i_currentFrame img < length (i_frames img)
                then Some (i_frames img ! i_currentFrame img)
                else if i_frames img \<noteq> [] then Some (last (i_frames img))
                else None)"
  using assms by (simp add: getFrame_def checkImageDestroyed_def js_index_def last_conv_nth)

theorem getFrame_never_throws_witness:
  "getFrame (loaded_image [''f0'', ''f1''] 0\<lparr>i_currentFrame := 5\<rparr>) = Inr (Some ''f1'') \<and>
   getFrame (loaded_image [''f0'', ''f1''] 0\<lparr>i_currentFrame := 0\<rparr>) = Inr (Some ''f0'') \<and>
   getFrame (loaded_image ([] :: string list) 0) = Inr None"
  using getFrame_never_throws [of "loaded_image [''f0'', ''f1''] 0\<lparr>i_currentFrame := 5\<rparr>"]
    getFrame_never_throws [of "loaded_image [''f0'', ''f1''] 0\<lparr>i_currentFrame := 0\<rparr>"]
    getFrame_never_throws [of "loaded_image ([] :: string list) 0"]
  by (simp add: loaded_image_def)

section \<open>Verification: the pressed-state set and isPressed\<close>

lemma strict_match_eq: "strict_match arr element \<longleftrightarrow> arr = element"
  by (auto simp add: strict_match_def list_all2_eq[symmetric])

lemma set_has_iff: "set_has element s \<longleftrightarrow> element \<in> set s"
  by (induction s) (auto simp add: strict_match_eq)

lemma set_wildHas_iff: "set_wildHas element s \<longleftrightarrow> (\<exists>arr \<in> set s. wild_match arr element)"
  by (induction s) auto

lemma wild_match_pair:
  "wild_match arr [x, y] \<longleftrightarrow>
     (\<exists>a b. arr = [a, b] \<and> (x = JUndefined \<or> a = x) \<and> (y = JUndefined \<or> b = y))"
  by (cases arr rule: list.exhaust; auto simp add: wild_match_def list_all2_Cons2)

lemma set_add_set: "set (set_add element s) = insert element (set s)"
  by (auto simp add: set_add_def set_has_iff)

lemma set_add_distinct: "distinct s \<Longrightarrow> distinct (set_add element s)"
  by (simp add: set_add_def set_has_iff)

lemma set_add_idem: "set_add element (set_add element s) = set_add element s"
  by (simp add: set_add_def set_has_iff)

lemma set_delete_remove1: "set_delete element s = remove1 element s"
  by (induction s) (auto simp add: strict_match_eq)

lemma count_list_set_add:
  "count_list (set_add element s) element = (if element \<in> set s then count_list s element else 1)"
  by (simp add: set_add_def set_has_iff)

lemma isPressed_valid:
  assumes "\<not> k_destroyed (keys w k)"
    and "index = AUndefined \<or> (\<exists>n. index = ANumber n \<and> 0 \<le> n \<and> n \<le> int (d_KEY_COUNT (deck w)) - 1)"
    and "page = AUndefined \<or> (\<exists>p. page = APage p \<and> \<not> p_destroyed (pages w p))"
  shows "isPressed w k index page =
           Inr (set_wildHas [arg_val index, arg_val page] (k_pressStates (keys w k)))"
  using assms
  by (auto simp add: isPressed_def checkValidInteger_def checkValidPage_def)

lemma arg_val_undefined:
  assumes "index = AUndefined \<or> (\<exists>n. index = ANumber n)"
  shows "arg_val index = JUndefined \<longleftrightarrow> index = AUndefined"
  using assms by (auto simp add: arg_val_def)

lemma arg_val_undefined_page:
  assumes "page = AUndefined \<or> (\<exists>p. page = APage p)"
  shows "arg_val page = JUndefined \<longleftrightarrow> page = AUndefined"
  using assms by (auto simp add: arg_val_def)

text \<open>
  Claim C10. On a key that is not destroyed, with arguments that pass \<open>checkValid\<close>
  (each one omitted or well-formed), \<open>isPressed(index, page)\<close> returns whether some
  recorded entry \<open>[a, b]\<close> of the pressed-state set agrees with the arguments position by
  position, an omitted argument agreeing with anything; with both arguments omitted it
  returns whether any pair is recorded at all. The set compares by content: \<open>has\<close> is
  membership of the content, adding the same content a second time changes nothing, and
  after an \<open>add\<close> the content occurs as often as before, or once if it was absent.
\<close>

theorem isPressed_wild:
  assumes "\<not> k_destroyed (keys w k)"
    and "index = AUndefined \<or> (\<exists>n. index = ANumber n \<and> 0 \<le> n \<and> n \<le> int (d_KEY_COUNT (deck w)) - 1)"
    and "page = AUndefined \<or> (\<exists>p. page = APage p \<and> \<not> p_destroyed (pages w p))"
  shows "isPressed w k index page =
           Inr (\<exists>arr \<in> set (k_pressStates (keys w k)). \<exists>a b. arr = [a, b] \<and>
                  (index = AUndefined \<or> a = arg_val index) \<and>
                  (page = AUndefined \<or> b = arg_val page)) \<and>
         isPressed w k AUndefined AUndefined =
           Inr (\<exists>arr \<in> set (k_pressStates (keys w k)). length arr = 2) \<and>
         set_has element s = (element \<in> set s) \<and>
         set_add element (set_add element s) = set_add element s \<and>
         count_list (set_add element s) element =
           (if element \<in> set s then count_list s element else 1)"
proof -
  have i: "arg_val index = JUndefined \<longleftrightarrow> index = AUndefined"
    using assms(2) by (intro arg_val_undefined) auto
  have p: "arg_val page = JUndefined \<longleftrightarrow> page = AUndefined"
    using assms(3) by (intro arg_val_undefined_page) auto
  have "isPressed w k index page =
          Inr (set_wildHas [arg_val index, arg_val page] (k_pressStates (keys w k)))"
    using assms by (rule isPressed_valid)
  then have first: "isPressed w k index page =
           Inr (\<exists>arr \<in> set (k_pressStates (keys w k)). \<exists>a b. arr = [a, b] \<and>
                  (index = AUndefined \<or> a = arg_val index) \<and>
                  (page = AUndefined \<or> b = arg_val page))"
    by (simp add: set_wildHas_iff wild_match_pair i p)
  have "isPressed w k AUndefined AUndefined =
          Inr (set_wildHas [JUndefined, JUndefined] (k_pressStates (keys w k)))"
    using assms(1) by (simp add: isPressed_def checkValidInteger_def checkValidPage_def arg_val_def)
  moreover have "wild_match arr [JUndefined, JUndefined] \<longleftrightarrow> length arr = 2" for arr
    by (auto simp add: wild_match_pair length_Suc_conv numeral_2_eq_2)
  ultimately have second: "isPressed w k AUndefined AUndefined =
           Inr (\<exists>arr \<in> set (k_pressStates (keys w k)). length arr = 2)"
    by (simp add: set_wildHas_iff)
  show ?thesis
    using first second set_has_iff set_add_idem count_list_set_add by blast
qed

theorem isPressed_wild_witness:
  "isPressed (upd_key 0 (\<lambda>s. s\<lparr>k_pressStates := [pair 2 (Some 0)]\<rparr>) (new_world 500 None None))
     0 (ANumber 2) AUndefined = Inr True \<and>
   isPressed (upd_key 0 (\<lambda>s. s\<lparr>k_pressStates := [pair 2 (Some 0)]\<rparr>) (new_world 500 None None))
     0 (ANumber 3) AUndefined = Inr False \<and>
   isPressed (upd_key 0 (\<lambda>s. s\<lparr>k_pressStates := [pair 2 (Some 0)]\<rparr>) (new_world 500 None None))
     0 AUndefined AUndefined = Inr True \<and>
   set_add (pair 2 (Some 0)) (set_add (pair 2 (Some 0)) []) = [pair 2 (Some 0)]"
  using isPressed_wild [of "upd_key 0 (\<lambda>s. s\<lparr>k_pressStates := [pair 2 (Some 0)]\<rparr>) (new_world 500 None None)"
      0 "ANumber 2" AUndefined "pair 2 (Some 0)" "[]"]
    isPressed_wild [of "upd_key 0 (\<lambda>s. s\<lparr>k_pressStates := [pair 2 (Some 0)]\<rparr>) (new_world 500 None None)"
      0 "ANumber 3" AUndefined "pair 2 (Some 0)" "[]"]
  by (simp add: upd_key_def new_world_def new_key_def new_deck_def new_page_def pair_def
      arg_val_def set_add_def)

section \<open>Verification: attaching and detaching keys\<close>

lemma find_attachment_free:
  "map_of ks i = None \<Longrightarrow> find_attachment (Some i) key ks = None"
  by (induction ks) (auto split: if_splits)

lemma find_attachment_index:
  "map_of ks i = Some k \<Longrightarrow> find_attachment (Some i) None ks = Some (i, k)"
  by (induction ks) (auto split: if_splits)

lemma find_attachment_index_key:
  "map_of ks i = Some k \<Longrightarrow> find_attachment (Some i) (Some k) ks = Some (i, k)"
  by (induction ks) (auto split: if_splits)

lemma update_free_slot:
  "map_of ks i = None \<Longrightarrow> AList.update i k ks = ks @ [(i, k)]"
  by (induction ks) (auto split: if_splits)

lemma delete_last_attached:
  "map_of ks i = None \<Longrightarrow> AList.delete i (ks @ [(i, k)]) = ks"
  by (induction ks) (auto simp add: AList.delete_eq split: if_splits)

lemma slot_nat:
  "1 \<le> r \<Longrightarrow> 1 \<le> c \<Longrightarrow> nat (int c - 1 + (int r - 1) * int C) = c - 1 + (r - 1) * C"
  by (cases r; cases c; simp add: nat_add_distrib nat_mult_distrib)

lemma slot_of_row_column_valid:
  assumes "1 \<le> r" "r \<le> d_PANEL_ROW_COUNT (deck w)" "1 \<le> c" "c \<le> d_PANEL_COLUMN_COUNT (deck w)"
  shows "slot_of_row_column w (ANumber (int r)) (ANumber (int c)) =
           Inr (c - 1 + (r - 1) * d_PANEL_COLUMN_COUNT (deck w))"
  using assms slot_nat[of r c "d_PANEL_COLUMN_COUNT (deck w)"]
  by (simp add: slot_of_row_column_def checkValidInteger_def)

lemma slot_in_range:
  assumes "1 \<le> r" "r \<le> R" "1 \<le> c" "c \<le> (C::nat)"
  shows "c - 1 + (r - 1) * C < R * C"
proof -
  have "c - 1 + (r - 1) * C < C + (r - 1) * C" using assms(3,4) by simp
  also have "\<dots> = r * C" using assms(1) by (cases r) simp_all
  also have "\<dots> \<le> R * C" using assms(2) by simp
  finally show ?thesis .
qed

lemma slot_of_index_valid:
  assumes "i < d_KEY_COUNT (deck w)"
  shows "slot_of_index w (ANumber (int i)) = Inr i"
  using assms by (simp add: slot_of_index_def checkValidInteger_def)

lemma emit_deck_detach [simp]:
  "emit_deck Detach i po ko w = push_out (Emit OnDeck Detach i po ko) w"
  "emit_deck Attach i po ko w = push_out (Emit OnDeck Attach i po ko) w"
  by (simp_all add: emit_deck_def)

lemma emit_page_detach [simp]:
  "emit_page p Detach i po ko w = push_out (Emit (OnPage p) Detach i po ko) w"
  "emit_page p Attach i po ko w = push_out (Emit (OnPage p) Attach i po ko) w"
  by (simp_all add: emit_page_def)

lemma emit_key_attach [simp]:
  "emit_key k Attach i po ko w = push_out (Emit (OnKey k) Attach i po ko) w"
  by (simp add: emit_key_def)

lemma world_simps [simp]:
  "pages (push_out x w) = pages w" "keys (push_out x w) = keys w" "deck (push_out x w) = deck w"
  "out (push_out x w) = out w @ [x]"
  "pages (upd_page p f w) = (pages w)(p := f (pages w p))" "keys (upd_page p f w) = keys w"
  "deck (upd_page p f w) = deck w" "out (upd_page p f w) = out w"
  "pages (upd_key k g w) = pages w" "keys (upd_key k g w) = (keys w)(k := g (keys w k))"
  "deck (upd_key k g w) = deck w" "out (upd_key k g w) = out w"
  "pages (upd_deck h w) = pages w" "keys (upd_deck h w) = keys w"
  "deck (upd_deck h w) = h (deck w)" "out (upd_deck h w) = out w"
  by (simp_all add: push_out_def upd_page_def upd_key_def upd_deck_def)

lemma detach_loop_free:
  "map_of (p_keys (pages w p)) i = None \<Longrightarrow>
   detach_loop p (Some i) key w = (None, page_draw p w)"
  by (simp add: detach_loop_def find_attachment_free)

text \<open>
  Claim C8. \<open>detachKey(i)\<close> or \<open>detachKey(i, key)\<close> on a page that holds no key at
  slot \<open>i\<close> changes nothing but the graphics queue: when the page is live and the
  arguments pass their checks it returns normally, and the world it leaves is the one it
  found with the draw job that ends \<open>detachKey\<close> pushed; otherwise it raises and leaves
  the world as it found it. Either way the page's attachments are untouched and no
  \<open>detach\<close> notification is emitted on the device, the page or a key.
\<close>

theorem detachKey_free_slot:
  assumes "map_of (p_keys (pages w p)) i = None" and "\<not> is_number key"
  shows "(snd (detachKey p (ANumber (int i)) key AUndefined w) = w \<or>
          snd (detachKey p (ANumber (int i)) key AUndefined w) = push_out (DrawPage p) w) \<and>
         (if \<not> p_destroyed (pages w p) \<and> i < d_KEY_COUNT (deck w) \<and>
             (key = AUndefined \<or> (\<exists>k. key = AKey k))
          then detachKey p (ANumber (int i)) key AUndefined w = (None, push_out (DrawPage p) w)
          else fst (detachKey p (ANumber (int i)) key AUndefined w) \<noteq> None \<and>
               snd (detachKey p (ANumber (int i)) key AUndefined w) = w)"
proof (cases "\<not> p_destroyed (pages w p) \<and> i < d_KEY_COUNT (deck w) \<and>
             (key = AUndefined \<or> (\<exists>k. key = AKey k))")
  case True
  then have "detachKey p (ANumber (int i)) key AUndefined w = (None, push_out (DrawPage p) w)"
    using assms
    by (auto simp add: detachKey_def checkPageDestroyed_def is_number_def slot_of_index_valid
        checkValidKey_def detach_loop_free page_draw_def)
  then show ?thesis using True by simp
next
  case False
  then have "fst (detachKey p (ANumber (int i)) key AUndefined w) \<noteq> None \<and>
               snd (detachKey p (ANumber (int i)) key AUndefined w) = w"
    using assms(2)
    by (cases key)
       (auto simp add: detachKey_def checkPageDestroyed_def is_number_def slot_of_index_def
        slot_of_row_column_def checkValidInteger_def checkValidKey_def split: option.splits)
  then show ?thesis using False by auto
qed

lemma detachKey_index_only:
  assumes "\<not> p_destroyed (pages w p)"
    and "i < d_KEY_COUNT (deck w)"
    and "map_of (p_keys (pages w p)) i = Some k"
  shows "detachKey p (ANumber (int i)) AUndefined AUndefined w =
           (Some TypeError,
            push_out (Emit (OnPage p) Detach i (Some p) (Some k))
              (push_out (Emit OnDeck Detach i (Some p) (Some k))
                 (upd_page p (\<lambda>s. s\<lparr>p_keys := AList.delete i (p_keys s)\<rparr>) w)))"
  using assms
  by (simp add: detachKey_def checkPageDestroyed_def is_number_def slot_of_index_valid
      checkValidKey_def key_of_arg_def detach_loop_def find_attachment_index Let_def)

text \<open>
  Claim C9. On a page with key \<open>k\<close> attached at slot \<open>i\<close>, \<open>detachKey(i)\<close> with no key
  argument raises a \<open>TypeError\<close>, and the world it leaves is the one where the attachment
  at \<open>i\<close> is deleted from the page's map and \<open>detach\<close> is emitted on the device and on
  the page, in that order, and nothing more: no \<open>detach\<close> on the key (every key is as it
  was, so its handler did not run) and no draw job.
\<close>

theorem detachKey_index_only_throws:
  assumes "\<not> p_destroyed (pages w p)"
    and "i < d_KEY_COUNT (deck w)"
    and "map_of (p_keys (pages w p)) i = Some k"
  shows "detachKey p (ANumber (int i)) AUndefined AUndefined w =
           (Some TypeError,
            push_out (Emit (OnPage p) Detach i (Some p) (Some k))
              (push_out (Emit OnDeck Detach i (Some p) (Some k))
                 (upd_page p (\<lambda>s. s\<lparr>p_keys := AList.delete i (p_keys s)\<rparr>) w))) \<and>
         map_of (p_keys (pages (snd (detachKey p (ANumber (int i)) AUndefined AUndefined w)) p)) i = None \<and>
         keys (snd (detachKey p (ANumber (int i)) AUndefined AUndefined w)) = keys w \<and>
         out (snd (detachKey p (ANumber (int i)) AUndefined AUndefined w)) =
           out w @ [Emit OnDeck Detach i (Some p) (Some k), Emit (OnPage p) Detach i (Some p) (Some k)]"
  using detachKey_index_only[OF assms] by (simp add: AList.delete_conv')

lemma pages_key_draw [simp]: "pages (key_draw k w) = pages w" "deck (key_draw k w) = deck w"
  "keys (key_draw k w) = keys w"
  by (simp_all add: key_draw_def)

lemma pages_page_draw [simp]: "pages (page_draw p w) = pages w" "deck (page_draw p w) = deck w"
  "keys (page_draw p w) = keys w"
  by (simp_all add: page_draw_def)

lemma pages_key_on_detach [simp]:
  "pages (key_on_detach k i po w) = pages w" "deck (key_on_detach k i po w) = deck w"
  "out (key_on_detach k i po w) = out w"
  by (simp_all add: key_on_detach_def)

lemma attachKey_free_slot:
  assumes "\<not> p_destroyed (pages w p)" and "\<not> k_destroyed (keys w k)"
    and "1 \<le> r" and "r \<le> d_PANEL_ROW_COUNT (deck w)"
    and "1 \<le> c" and "c \<le> d_PANEL_COLUMN_COUNT (deck w)"
    and "map_of (p_keys (pages w p)) (c - 1 + (r - 1) * d_PANEL_COLUMN_COUNT (deck w)) = None"
  shows "attachKey p (ANumber (int r)) (ANumber (int c)) (AKey k) w =
           (None,
            key_draw k
              (push_out (Emit (OnKey k) Attach (c - 1 + (r - 1) * d_PANEL_COLUMN_COUNT (deck w)) (Some p) (Some k))
                 (push_out (Emit (OnPage p) Attach (c - 1 + (r - 1) * d_PANEL_COLUMN_COUNT (deck w)) (Some p) (Some k))
                    (push_out (Emit OnDeck Attach (c - 1 + (r - 1) * d_PANEL_COLUMN_COUNT (deck w)) (Some p) (Some k))
                       (upd_page p (\<lambda>s. s\<lparr>p_keys := AList.update
                          (c - 1 + (r - 1) * d_PANEL_COLUMN_COUNT (deck w)) k (p_keys s)\<rparr>) w)))))"
  using assms
  by (simp add: attachKey_def checkPageDestroyed_def is_number_def slot_of_row_column_valid
      attach_at_def checkValidKey_def key_of_arg_def Let_def)

text \<open>
  The round trip by row and column where it works. For a row \<open>r\<close> in
  \<open>[1, PANEL_ROW_COUNT]\<close> and a column \<open>c\<close> in \<open>[1, PANEL_COLUMN_COUNT]\<close> whose slot is
  free on the page (on a device with a key slot for every row and column):
  \<open>attachKey(r, c, key)\<close> returns normally and stores the key at index
  \<open>c - 1 + (r - 1) * PANEL_COLUMN_COUNT\<close>, as a new last entry of the page's map;
  \<open>detachKey(index, key)\<close> then returns normally, emits \<open>detach\<close> for that index and key
  on the device, the page and the key, and leaves the page's map exactly as it was before
  the attach; \<open>detachKey(index)\<close> leaves the same map.
\<close>

theorem attach_row_column_detach_index:
  assumes "\<not> p_destroyed (pages w p)" and "\<not> k_destroyed (keys w k)"
    and "1 \<le> r" and "r \<le> d_PANEL_ROW_COUNT (deck w)"
    and "1 \<le> c" and "c \<le> d_PANEL_COLUMN_COUNT (deck w)"
    and "d_PANEL_ROW_COUNT (deck w) * d_PANEL_COLUMN_COUNT (deck w) \<le> d_KEY_COUNT (deck w)"
    and "index = c - 1 + (r - 1) * d_PANEL_COLUMN_COUNT (deck w)"
    and "map_of (p_keys (pages w p)) index = None"
    and "w1 = snd (attachKey p (ANumber (int r)) (ANumber (int c)) (AKey k) w)"
  shows "fst (attachKey p (ANumber (int r)) (ANumber (int c)) (AKey k) w) = None \<and>
         p_keys (pages w1 p) = p_keys (pages w p) @ [(index, k)] \<and>
         map_of (p_keys (pages w1 p)) index = Some k \<and>
         fst (detachKey p (ANumber (int index)) (AKey k) AUndefined w1) = None \<and>
         p_keys (pages (snd (detachKey p (ANumber (int index)) (AKey k) AUndefined w1)) p) =
           p_keys (pages w p) \<and>
         p_keys (pages (snd (detachKey p (ANumber (int index)) AUndefined AUndefined w1)) p) =
           p_keys (pages w p) \<and>
         out (snd (detachKey p (ANumber (int index)) (AKey k) AUndefined w1)) =
           out w1 @ [Emit OnDeck Detach index (Some p) (Some k),
                     Emit (OnPage p) Detach index (Some p) (Some k),
                     Emit (OnKey k) Detach index (Some p) (Some k),
                     DrawPage p]"
proof -
  let ?C = "d_PANEL_COLUMN_COUNT (deck w)"
  have free: "map_of (p_keys (pages w p)) (c - 1 + (r - 1) * ?C) = None"
    using assms(8,9) by simp
  note att = attachKey_free_slot[OF assms(1-6) free]
  have w1: "w1 = key_draw k
              (push_out (Emit (OnKey k) Attach index (Some p) (Some k))
                 (push_out (Emit (OnPage p) Attach index (Some p) (Some k))
                    (push_out (Emit OnDeck Attach index (Some p) (Some k))
                       (upd_page p (\<lambda>s. s\<lparr>p_keys := AList.update index k (p_keys s)\<rparr>) w))))"
    using att assms(8,10) by simp
  have ks: "p_keys (pages w1 p) = p_keys (pages w p) @ [(index, k)]"
    using assms(9) by (simp add: w1 update_free_slot)
  have at: "map_of (p_keys (pages w1 p)) index = Some k"
    using assms(9) by (simp add: ks map_add_def)
  have range: "index < d_KEY_COUNT (deck w1)"
    using slot_in_range[OF assms(3,4,5,6)] assms(7,8) by (simp add: w1)
  have nd: "\<not> p_destroyed (pages w1 p)" using assms(1) by (simp add: w1)
  have d1: "detachKey p (ANumber (int index)) (AKey k) AUndefined w1 =
          (None, page_draw p (emit_key k Detach index (Some p) (Some k)
             (push_out (Emit (OnPage p) Detach index (Some p) (Some k))
               (push_out (Emit OnDeck Detach index (Some p) (Some k))
                 (upd_page p (\<lambda>s. s\<lparr>p_keys := AList.delete index (p_keys s)\<rparr>) w1)))))"
    using nd range at
    by (simp add: detachKey_def checkPageDestroyed_def is_number_def slot_of_index_valid
        checkValidKey_def key_of_arg_def detach_loop_def find_attachment_index_key Let_def)
  have d2: "detachKey p (ANumber (int index)) AUndefined AUndefined w1 =
           (Some TypeError,
            push_out (Emit (OnPage p) Detach index (Some p) (Some k))
              (push_out (Emit OnDeck Detach index (Some p) (Some k))
                 (upd_page p (\<lambda>s. s\<lparr>p_keys := AList.delete index (p_keys s)\<rparr>) w1)))"
    using nd range at by (rule detachKey_index_only)
  have del: "AList.delete index (p_keys (pages w1 p)) = p_keys (pages w p)"
    using assms(9) by (simp add: ks delete_last_attached)
  have "fst (attachKey p (ANumber (int r)) (ANumber (int c)) (AKey k) w) = None"
    using att by simp
  moreover have "p_keys (pages (snd (detachKey p (ANumber (int index)) (AKey k) AUndefined w1)) p) =
           p_keys (pages w p)"
    using del by (simp add: d1 emit_key_def)
  moreover have "p_keys (pages (snd (detachKey p (ANumber (int index)) AUndefined AUndefined w1)) p) =
           p_keys (pages w p)"
    using del by (simp add: d2)
  moreover have "out (snd (detachKey p (ANumber (int index)) (AKey k) AUndefined w1)) =
           out w1 @ [Emit OnDeck Detach index (Some p) (Some k),
                     Emit (OnPage p) Detach index (Some p) (Some k),
                     Emit (OnKey k) Detach index (Some p) (Some k),
                     DrawPage p]"
    using nd by (simp add: d1 emit_key_def page_draw_def)
  ultimately show ?thesis using ks at d1 by simp
qed


theorem attach_row_column_detach_index_witness:
  "fst (attachKey 0 (ANumber 2) (ANumber 3) (AKey 0) (new_world 500 None None)) = None \<and>
   p_keys (pages (snd (attachKey 0 (ANumber 2) (ANumber 3) (AKey 0) (new_world 500 None None))) 0)
     = [(7, 0)] \<and>
   fst (detachKey 0 (ANumber 7) (AKey 0) AUndefined
          (snd (attachKey 0 (ANumber 2) (ANumber 3) (AKey 0) (new_world 500 None None)))) = None \<and>
   p_keys (pages (snd (detachKey 0 (ANumber 7) (AKey 0) AUndefined
          (snd (attachKey 0 (ANumber 2) (ANumber 3) (AKey 0) (new_world 500 None None))))) 0) = []"
  using attach_row_column_detach_index [of "new_world 500 None None" 0 0 2 3 7
      "snd (attachKey 0 (ANumber 2) (ANumber 3) (AKey 0) (new_world 500 None None))"]
  by (simp add: new_world_def new_deck_def new_page_def new_key_def)

theorem detachKey_free_slot_witness:
  "detachKey 0 (ANumber 4) AUndefined AUndefined (new_world 500 None None) =
     (None, push_out (DrawPage 0) (new_world 500 None None)) \<and>
   p_keys (pages (snd (detachKey 0 (ANumber 4) AUndefined AUndefined (new_world 500 None None))) 0) = [] \<and>
   out (snd (detachKey 0 (ANumber 4) AUndefined AUndefined (new_world 500 None None))) = [DrawPage 0]"
  using detachKey_free_slot [of "new_world 500 None None" 0 4 AUndefined]
  by (simp add: new_world_def new_deck_def new_page_def new_key_def is_number_def)

theorem detachKey_index_only_throws_witness:
  "fst (detachKey 0 (ANumber 4) AUndefined AUndefined
          (upd_page 0 (\<lambda>s. s\<lparr>p_keys := [(4, 1)]\<rparr>) (new_world 500 None None))) = Some TypeError \<and>
   p_keys (pages (snd (detachKey 0 (ANumber 4) AUndefined AUndefined
          (upd_page 0 (\<lambda>s. s\<lparr>p_keys := [(4, 1)]\<rparr>) (new_world 500 None None)))) 0) = [] \<and>
   out (snd (detachKey 0 (ANumber 4) AUndefined AUndefined
          (upd_page 0 (\<lambda>s. s\<lparr>p_keys := [(4, 1)]\<rparr>) (new_world 500 None None)))) =
     [Emit OnDeck Detach 4 (Some 0) (Some 1), Emit (OnPage 0) Detach 4 (Some 0) (Some 1)]"
  using detachKey_index_only_throws [of "upd_page 0 (\<lambda>s. s\<lparr>p_keys := [(4, 1)]\<rparr>) (new_world 500 None None)" 0 4 1]
  by (simp add: new_world_def new_deck_def new_page_def new_key_def AList.delete_eq)

text \<open>
  On a slot that holds a key, \<open>attachKey\<close> goes through \<open>this.detachKey(index)\<close>, which
  raises as above: the old key is detached and the new key is never stored.
\<close>

lemma attachKey_occupied_slot_throws:
  assumes "\<not> p_destroyed (pages w p)" and "\<not> k_destroyed (keys w k)"
    and "i < d_KEY_COUNT (deck w)"
    and "map_of (p_keys (pages w p)) i = Some k0"
  shows "attachKey p (ANumber (int i)) (AKey k) AUndefined w =
           (Some TypeError,
            push_out (Emit (OnPage p) Detach i (Some p) (Some k0))
              (push_out (Emit OnDeck Detach i (Some p) (Some k0))
                 (upd_page p (\<lambda>s. s\<lparr>p_keys := AList.delete i (p_keys s)\<rparr>) w)))"
  using assms detachKey_index_only[OF assms(1,3,4)]
  by (simp add: attachKey_def checkPageDestroyed_def is_number_def slot_of_index_valid
      attach_at_def checkValidKey_def key_of_arg_def)

text \<open>
  Claim C4 fails on the code. Slot 7 of the page, row 2 and column 3 of a panel with 5
  columns, holds key 1. \<open>attachKey(2, 3, key 0)\<close> detaches key 1 through
  \<open>this.detachKey(7)\<close>, which raises after the device's and the page's \<open>detach\<close>:
  \<open>attachKey\<close> ends with the \<open>TypeError\<close>, the slot is empty and key 0 is stored
  nowhere. On a fresh page the attach stores the key at index 7, and \<open>detachKey(7)\<close>
  then raises the same error.
\<close>

theorem attach_occupied_slot_raises:
  "fst (attachKey 0 (ANumber 2) (ANumber 3) (AKey 0)
          (upd_page 0 (\<lambda>s. s\<lparr>p_keys := [(7, 1)]\<rparr>) (new_world 500 None None))) = Some TypeError \<and>
   p_keys (pages (snd (attachKey 0 (ANumber 2) (ANumber 3) (AKey 0)
          (upd_page 0 (\<lambda>s. s\<lparr>p_keys := [(7, 1)]\<rparr>) (new_world 500 None None)))) 0) = [] \<and>
   out (snd (attachKey 0 (ANumber 2) (ANumber 3) (AKey 0)
          (upd_page 0 (\<lambda>s. s\<lparr>p_keys := [(7, 1)]\<rparr>) (new_world 500 None None)))) =
     [Emit OnDeck Detach 7 (Some 0) (Some 1), Emit (OnPage 0) Detach 7 (Some 0) (Some 1)] \<and>
   fst (detachKey 0 (ANumber 7) AUndefined AUndefined
          (snd (attachKey 0 (ANumber 2) (ANumber 3) (AKey 0) (new_world 500 None None)))) =
     Some TypeError"
  by (simp add: attachKey_def attach_at_def detachKey_def detach_loop_def checkPageDestroyed_def
      is_number_def slot_of_row_column_def slot_of_index_def checkValidInteger_def
      checkValidKey_def key_of_arg_def key_draw_def new_world_def new_deck_def new_page_def
      new_key_def AList.delete_eq Let_def)

section \<open>Verification: click and held\<close>

lemma pair_inject [simp]: "pair i po = pair j qo \<longleftrightarrow> i = j \<and> po = qo"
  by (auto simp add: pair_def split: option.splits)

lemma set_delete_distinct: "distinct s \<Longrightarrow> set (set_delete element s) = set s - {element}"
  by (simp add: set_delete_remove1)


lemma deck_on_activity_frame [simp]:
  "pages (deck_on_activity w) = pages w" "keys (deck_on_activity w) = keys w"
  "out (deck_on_activity w) = out w"
  "d_destroyed (deck (deck_on_activity w)) = d_destroyed (deck w)"
  "d_HOLD_TIME (deck (deck_on_activity w)) = d_HOLD_TIME (deck w)"
  "d_holdTimeoutIds (deck (deck_on_activity w)) = d_holdTimeoutIds (deck w)"
  "d_downPages (deck (deck_on_activity w)) = d_downPages (deck w)"
  "d_downKeys (deck (deck_on_activity w)) = d_downKeys (deck w)"
  "d_holdIndexes (deck (deck_on_activity w)) = d_holdIndexes (deck w)"
  "d_focusedPage (deck (deck_on_activity w)) = d_focusedPage (deck w)"
  by (simp_all add: deck_on_activity_def Let_def)

lemma page_on_activity_frame [simp]:
  "deck (page_on_activity q w) = deck w" "keys (page_on_activity q w) = keys w"
  "out (page_on_activity q w) = out w"
  "p_destroyed (pages (page_on_activity q w) p) = p_destroyed (pages w p)"
  "p_HOLD_TIME (pages (page_on_activity q w) p) = p_HOLD_TIME (pages w p)"
  "p_holdTimeoutIds (pages (page_on_activity q w) p) = p_holdTimeoutIds (pages w p)"
  "p_holdIndexes (pages (page_on_activity q w) p) = p_holdIndexes (pages w p)"
  "p_keys (pages (page_on_activity q w) p) = p_keys (pages w p)"
  by (simp_all add: page_on_activity_def Let_def)

lemma key_on_activity_frame [simp]:
  "deck (key_on_activity k' w) = deck w" "pages (key_on_activity k' w) = pages w"
  "out (key_on_activity k' w) = out w"
  "k_destroyed (keys (key_on_activity k' w) k) = k_destroyed (keys w k)"
  "k_HOLD_TIME (keys (key_on_activity k' w) k) = k_HOLD_TIME (keys w k)"
  "k_holdTimeoutIds (keys (key_on_activity k' w) k) = k_holdTimeoutIds (keys w k)"
  "k_holdStates (keys (key_on_activity k' w) k) = k_holdStates (keys w k)"
  by (simp_all add: key_on_activity_def Let_def)

lemma emit_deck_frame [simp]:
  "pages (emit_deck ev index page key w) = pages w"
  "keys (emit_deck ev index page key w) = keys w"
  "out (emit_deck ev index page key w) = out w @ [Emit OnDeck ev index page key]"
  "d_destroyed (deck (emit_deck ev index page key w)) = d_destroyed (deck w)"
  "d_HOLD_TIME (deck (emit_deck ev index page key w)) = d_HOLD_TIME (deck w)"
  "d_holdTimeoutIds (deck (emit_deck ev index page key w)) = d_holdTimeoutIds (deck w)"
  "d_downPages (deck (emit_deck ev index page key w)) = d_downPages (deck w)"
  "d_downKeys (deck (emit_deck ev index page key w)) = d_downKeys (deck w)"
  "d_holdIndexes (deck (emit_deck ev index page key w)) = d_holdIndexes (deck w)"
  "d_focusedPage (deck (emit_deck ev index page key w)) = d_focusedPage (deck w)"
  by (cases ev; simp add: emit_deck_def Let_def)+

lemma key_handlers_frame [simp]:
  "deck (key_on_down k' index page w) = deck w" "pages (key_on_down k' index page w) = pages w"
  "deck (key_on_hold k' index page w) = deck w" "pages (key_on_hold k' index page w) = pages w"
  "deck (key_on_up k' index page w) = deck w" "pages (key_on_up k' index page w) = pages w"
  by (simp_all add: key_on_down_def key_on_hold_def key_on_up_def Let_def split: option.splits)

lemma emit_key_frame [simp]:
  "deck (emit_key k' ev index page key w) = deck w"
  "pages (emit_key k' ev index page key w) = pages w"
  "deck (emit_key_opt ko ev index page key w) = deck w"
  "pages (emit_key_opt ko ev index page key w) = pages w"
  by (cases ev; cases ko; simp add: emit_key_def emit_key_opt_def Let_def)+

lemma emit_key_outcome [simp]:
  "ev = Click \<or> ev = Held \<or> ev = Attach \<Longrightarrow>
     emit_key k' ev index page key w = push_out (Emit (OnKey k') ev index page key) w"
  by (auto simp add: emit_key_def)

lemma page_handlers_frame [simp]:
  "deck (page_on_down q index w) = deck w" "keys (page_on_down q index w) = keys w"
  "out (page_on_down q index w) = out w"
  "deck (page_on_hold q index w) = deck w" "keys (page_on_hold q index w) = keys w"
  "out (page_on_hold q index w) = out w"
  "deck (page_on_up q index w) = deck w" "keys (page_on_up q index w) = keys w"
  by (auto simp add: page_on_down_def page_on_hold_def page_on_up_def Let_def emit_key_opt_def
      split: option.splits)

lemma emit_page_frame [simp]:
  "deck (emit_page q ev index page key w) = deck w"
  "keys (emit_page q ev index page key w) = keys w"
  "deck (emit_page_opt qo ev index page key w) = deck w"
  "keys (emit_page_opt qo ev index page key w) = keys w"
  by (cases ev; cases qo; simp add: emit_page_def emit_page_opt_def Let_def)+

lemma key_on_down_fields:
  assumes "\<not> k_destroyed (keys w k)"
  shows "k_destroyed (keys (key_on_down k i po w) k) = False"
    and "k_HOLD_TIME (keys (key_on_down k i po w) k) = k_HOLD_TIME (keys w k)"
    and "k_holdStates (keys (key_on_down k i po w) k) = set_delete (pair i po) (k_holdStates (keys w k))"
    and "k_holdTimeoutIds (keys (key_on_down k i po w) k) =
           (if \<exists>h. k_HOLD_TIME (keys w k) = Some h \<and> 0 < h
            then insert (i, po) (k_holdTimeoutIds (keys w k))
            else k_holdTimeoutIds (keys w k) - {(i, po)})"
    and "out (key_on_down k i po w) = out w @ [DrawKey k]"
  using assms
  by (auto simp add: key_on_down_def key_clear_timers_def key_draw_def Let_def split: option.splits)

lemma page_on_down_fields:
  assumes "\<not> p_destroyed (pages w p)"
  shows "p_destroyed (pages (page_on_down p i w) p) = False"
    and "p_HOLD_TIME (pages (page_on_down p i w) p) = p_HOLD_TIME (pages w p)"
    and "p_keys (pages (page_on_down p i w) p) = p_keys (pages w p)"
    and "p_holdIndexes (pages (page_on_down p i w) p) = p_holdIndexes (pages w p) - {i}"
    and "p_holdTimeoutIds (pages (page_on_down p i w) p) =
           (if \<exists>h. p_HOLD_TIME (pages w p) = Some h \<and> 0 < h
            then (p_holdTimeoutIds (pages w p))(i \<mapsto> map_of (p_keys (pages w p)) i)
            else (p_holdTimeoutIds (pages w p))(i := None))"
  using assms
  by (auto simp add: page_on_down_def Let_def split: option.splits)

lemma hw_down_deck_pressed:
  assumes "\<not> d_destroyed (deck w)" and "d_focusedPage (deck w) = Some p"
    and "map_of (p_keys (pages w p)) i = Some k"
  shows "deck_pressed i p k (d_HOLD_TIME (deck w)) False (hw_down i w)"
  using assms by (simp add: deck_pressed_def hw_down_def Let_def)

lemma hw_down_page_pressed:
  assumes "\<not> d_destroyed (deck w)" and "d_focusedPage (deck w) = Some p"
    and "\<not> p_destroyed (pages w p)" and "map_of (p_keys (pages w p)) i = Some k"
  shows "page_pressed i p k (p_HOLD_TIME (pages w p)) False False (hw_down i w)"
  using assms
  by (auto simp add: page_pressed_def hw_down_def Let_def emit_page_opt_def emit_page_def
      page_on_down_fields)

lemma hw_down_key_pressed:
  assumes "\<not> d_destroyed (deck w)" and "d_focusedPage (deck w) = Some p"
    and "map_of (p_keys (pages w p)) i = Some k"
    and "\<not> k_destroyed (keys w k)" and "distinct (k_holdStates (keys w k))"
  shows "key_pressed i p k (k_HOLD_TIME (keys w k)) False False (hw_down i w)"
  using assms
  by (auto simp add: key_pressed_def hw_down_def Let_def emit_key_opt_def emit_key_def
      key_on_down_fields set_delete_distinct)

lemma hw_down_pressed:
  assumes "\<not> d_destroyed (deck w)" and "d_focusedPage (deck w) = Some p"
    and "\<not> p_destroyed (pages w p)" and "map_of (p_keys (pages w p)) i = Some k"
    and "\<not> k_destroyed (keys w k)" and "distinct (k_holdStates (keys w k))"
  shows "pressed i p k (d_HOLD_TIME (deck w)) (p_HOLD_TIME (pages w p)) (k_HOLD_TIME (keys w k))
           False False False (hw_down i w)"
  using hw_down_deck_pressed[OF assms(1,2,4)] hw_down_page_pressed[OF assms(1,2,3,4)]
    hw_down_key_pressed[OF assms(1,2,4,5,6)]
  by (cases "k_HOLD_TIME (keys w k)"; cases "p_HOLD_TIME (pages w p)"; simp add: pressed_def)

lemma key_on_down_outcome [simp]:
  "filter (is_outcome tgt) (out (key_on_down k i po w)) = filter (is_outcome tgt) (out w)"
  by (simp add: key_on_down_def key_draw_def Let_def split: option.splits)

lemma hw_down_outcome:
  "filter (is_outcome tgt) (out (hw_down i w)) = filter (is_outcome tgt) (out w)"
  by (cases "d_focusedPage (deck w)"; cases "map_of (p_keys (pages w (the (d_focusedPage (deck w))))) i")
     (simp_all add: hw_down_def Let_def emit_page_opt_def emit_page_def emit_key_opt_def
      emit_key_def)


lemma set_add_member [simp]: "element \<in> set (set_add element s)"
  by (simp add: set_add_set)

lemma key_on_hold_fields:
  assumes "\<not> k_destroyed (keys w k)"
  shows "k_destroyed (keys (key_on_hold k i po w) k) = False"
    and "k_HOLD_TIME (keys (key_on_hold k i po w) k) = k_HOLD_TIME (keys w k)"
    and "k_holdTimeoutIds (keys (key_on_hold k i po w) k) = k_holdTimeoutIds (keys w k)"
    and "k_holdStates (keys (key_on_hold k i po w) k) =
           (if k_HOLD_TIME (keys w k) = None then set_add (pair i po) (k_holdStates (keys w k))
            else k_holdStates (keys w k))"
    and "out (key_on_hold k i po w) = out w"
  using assms by (simp_all add: key_on_hold_def)

lemma page_on_hold_fields:
  assumes "\<not> p_destroyed (pages w p)"
  shows "p_destroyed (pages (page_on_hold p i w) p) = False"
    and "p_HOLD_TIME (pages (page_on_hold p i w) p) = p_HOLD_TIME (pages w p)"
    and "p_keys (pages (page_on_hold p i w) p) = p_keys (pages w p)"
    and "p_holdTimeoutIds (pages (page_on_hold p i w) p) = p_holdTimeoutIds (pages w p)"
    and "p_holdIndexes (pages (page_on_hold p i w) p) =
           (if p_HOLD_TIME (pages w p) = None then insert i (p_holdIndexes (pages w p))
            else p_holdIndexes (pages w p))"
  using assms by (simp_all add: page_on_hold_def)

lemma deck_timeout_pressed:
  assumes "pressed i p k dh ph kh fd fp fk w"
  shows "pressed i p k dh ph kh (fd \<or> 0 < dh) fp fk (do_step (DeckHoldTimeout i) w)"
proof (cases "0 < dh \<and> \<not> fd")
  case False
  then have "d_holdTimeoutIds (deck w) i = None" and "(fd \<or> 0 < dh) = fd"
    using assms by (auto simp add: pressed_def deck_pressed_def)
  then show ?thesis using assms by (simp add: do_step_def)
next
  case True
  then have armed: "d_holdTimeoutIds (deck w) i = Some (Some p, Some k)"
    using assms by (simp add: pressed_def deck_pressed_def)
  have d: "deck_pressed i p k dh True (deck_hold_timeout i (Some p) (Some k) w)"
    using assms
    by (simp add: pressed_def deck_pressed_def deck_hold_timeout_def Let_def)
  have pg: "page_pressed i p k ph (if ph = None then True else fp) fp
              (deck_hold_timeout i (Some p) (Some k) w)"
    using assms
    by (auto simp add: pressed_def page_pressed_def deck_hold_timeout_def Let_def
        page_inherits_hold_def emit_page_opt_def emit_page_def page_on_hold_fields)
  have ky: "key_pressed i p k kh (if kh \<noteq> None then fk else if ph = None then True else fp) fk
              (deck_hold_timeout i (Some p) (Some k) w)"
    using assms
    by (auto simp add: pressed_def key_pressed_def page_pressed_def deck_hold_timeout_def Let_def
        page_inherits_hold_def key_inherits_hold_def emit_key_opt_def emit_key_def
        key_on_hold_fields)
  show ?thesis
    using d pg ky True armed by (cases kh; cases ph; simp add: do_step_def pressed_def)
qed


lemma page_timeout_pressed:
  assumes "pressed i p k dh ph kh fd fp fk w"
  shows "pressed i p k dh ph kh fd (fp \<or> (\<exists>h. ph = Some h \<and> 0 < h)) fk
           (do_step (PageHoldTimeout p i) w)"
proof (cases "(\<exists>h. ph = Some h \<and> 0 < h) \<and> \<not> fp")
  case False
  then have "p_holdTimeoutIds (pages w p) i = None"
    and "(fp \<or> (\<exists>h. ph = Some h \<and> 0 < h)) = fp"
    using assms by (auto simp add: pressed_def page_pressed_def)
  then show ?thesis using assms by (simp add: do_step_def)
next
  case True
  then have armed: "p_holdTimeoutIds (pages w p) i = Some (Some k)"
    using assms by (simp add: pressed_def page_pressed_def)
  from True obtain h where ph: "ph = Some h" "0 < h" by blast
  have d: "deck_pressed i p k dh fd (page_hold_timeout p i (Some k) w)"
    using assms
    by (simp add: pressed_def deck_pressed_def page_hold_timeout_def Let_def)
  have pg: "page_pressed i p k ph True True (page_hold_timeout p i (Some k) w)"
    using assms ph
    by (auto simp add: pressed_def page_pressed_def page_hold_timeout_def Let_def
        emit_page_def page_on_hold_fields)
  have ky: "key_pressed i p k kh (if kh \<noteq> None then fk else True) fk
              (page_hold_timeout p i (Some k) w)"
    using assms ph
    by (auto simp add: pressed_def key_pressed_def page_pressed_def page_hold_timeout_def Let_def
        key_inherits_hold_def emit_key_opt_def emit_key_def key_on_hold_fields)
  show ?thesis
    using d pg ky True armed ph by (cases kh; simp add: do_step_def pressed_def)
qed

lemma key_timeout_pressed:
  assumes "pressed i p k dh ph kh fd fp fk w"
  shows "pressed i p k dh ph kh fd fp (fk \<or> (\<exists>h. kh = Some h \<and> 0 < h))
           (do_step (KeyHoldTimeout k i (Some p)) w)"
proof (cases "(\<exists>h. kh = Some h \<and> 0 < h) \<and> \<not> fk")
  case False
  then have "(i, Some p) \<notin> k_holdTimeoutIds (keys w k)"
    and "(fk \<or> (\<exists>h. kh = Some h \<and> 0 < h)) = fk"
    using assms by (auto simp add: pressed_def key_pressed_def)
  then show ?thesis using assms by (simp add: do_step_def)
next
  case True
  then have armed: "(i, Some p) \<in> k_holdTimeoutIds (keys w k)"
    using assms by (simp add: pressed_def key_pressed_def)
  from True obtain h where kh: "kh = Some h" "0 < h" by blast
  have d: "deck_pressed i p k dh fd (key_hold_timeout k i (Some p) w)"
    using assms
    by (simp add: pressed_def deck_pressed_def key_hold_timeout_def Let_def)
  have pg: "page_pressed i p k ph (if ph = None then fd else fp) fp
              (key_hold_timeout k i (Some p) w)"
    using assms
    by (simp add: pressed_def page_pressed_def key_hold_timeout_def Let_def)
  have ky: "key_pressed i p k kh True True (key_hold_timeout k i (Some p) w)"
    using assms kh
    by (auto simp add: pressed_def key_pressed_def key_hold_timeout_def Let_def
        emit_key_def key_on_hold_def)
  show ?thesis
    using d pg ky True armed kh by (cases ph; simp add: do_step_def pressed_def)
qed

lemma press_timeout_pressed:
  assumes "pressed i p k dh ph kh fd fp fk w"
  shows "pressed i p k dh ph kh fd fp fk (do_step (KeyPressTimeout k i (Some p)) w)"
  using assms
  by (auto simp add: do_step_def pressed_def deck_pressed_def page_pressed_def key_pressed_def
      key_press_timeout_def key_draw_def Let_def)


lemma timer_outcome:
  assumes "st \<in> {DeckHoldTimeout i, PageHoldTimeout p i, KeyHoldTimeout k i po, KeyPressTimeout k i po}"
  shows "filter (is_outcome tgt) (out (do_step st w)) = filter (is_outcome tgt) (out w)"
proof -
  have key_hold: "filter (is_outcome tgt) (out (emit_key_opt ko Hold j qo ko' v)) =
      filter (is_outcome tgt) (out v)" for ko j qo ko' v
    by (cases ko) (simp_all add: emit_key_opt_def emit_key_def key_on_hold_def Let_def)
  have page_hold: "filter (is_outcome tgt) (out (emit_page_opt qo Hold j qo' ko v)) =
      filter (is_outcome tgt) (out v)" for qo j qo' ko v
    by (cases qo) (simp_all add: emit_page_opt_def emit_page_def)
  have "filter (is_outcome tgt) (out (deck_hold_timeout j qo ko w)) = filter (is_outcome tgt) (out w)"
    for j qo ko
    by (simp add: deck_hold_timeout_def Let_def key_hold page_hold)
  moreover have "filter (is_outcome tgt) (out (page_hold_timeout q j ko w)) =
      filter (is_outcome tgt) (out w)" for q j ko
    by (simp add: page_hold_timeout_def Let_def key_hold emit_page_def)
  moreover have "filter (is_outcome tgt) (out (key_hold_timeout k' j qo w)) =
      filter (is_outcome tgt) (out w)" for k' j qo
    by (simp add: key_hold_timeout_def Let_def emit_key_def key_on_hold_def)
  moreover have "filter (is_outcome tgt) (out (key_press_timeout k' j qo w)) =
      filter (is_outcome tgt) (out w)" for k' j qo
    by (simp add: key_press_timeout_def Let_def key_draw_def)
  ultimately show ?thesis
    using assms by (auto simp add: do_step_def split: option.splits)
qed

lemma timers_outcome:
  assumes "set ts \<subseteq> {DeckHoldTimeout i, PageHoldTimeout p i, KeyHoldTimeout k i po,
                     KeyPressTimeout k i po}"
  shows "filter (is_outcome tgt) (out (run ts w)) = filter (is_outcome tgt) (out w)"
  using assms
proof (induction ts arbitrary: w)
  case Nil
  then show ?case by simp
next
  case (Cons st ts)
  then have "st \<in> {DeckHoldTimeout i, PageHoldTimeout p i, KeyHoldTimeout k i po,
                     KeyPressTimeout k i po}" by simp
  from timer_outcome[OF this] Cons show ?case by simp
qed

lemma timers_pressed:
  assumes "pressed i p k dh ph kh fd fp fk w"
    and "set ts \<subseteq> {DeckHoldTimeout i, PageHoldTimeout p i, KeyHoldTimeout k i (Some p),
                     KeyPressTimeout k i (Some p)}"
  shows "pressed i p k dh ph kh
           (fd \<or> (0 < dh \<and> DeckHoldTimeout i \<in> set ts))
           (fp \<or> ((\<exists>h. ph = Some h \<and> 0 < h) \<and> PageHoldTimeout p i \<in> set ts))
           (fk \<or> ((\<exists>h. kh = Some h \<and> 0 < h) \<and> KeyHoldTimeout k i (Some p) \<in> set ts))
           (run ts w)"
  using assms
proof (induction ts arbitrary: w fd fp fk)
  case Nil
  then show ?case by simp
next
  case (Cons st ts)
  let ?D = "\<lambda>fd ts. fd \<or> (0 < dh \<and> DeckHoldTimeout i \<in> set ts)"
  let ?P = "\<lambda>fp ts. fp \<or> ((\<exists>h. ph = Some h \<and> 0 < h) \<and> PageHoldTimeout p i \<in> set ts)"
  let ?K = "\<lambda>fk ts. fk \<or> ((\<exists>h. kh = Some h \<and> 0 < h) \<and> KeyHoldTimeout k i (Some p) \<in> set ts)"
  from Cons.prems(2) have st: "st \<in> {DeckHoldTimeout i, PageHoldTimeout p i,
      KeyHoldTimeout k i (Some p), KeyPressTimeout k i (Some p)}"
    and ts: "set ts \<subseteq> {DeckHoldTimeout i, PageHoldTimeout p i, KeyHoldTimeout k i (Some p),
                     KeyPressTimeout k i (Some p)}"
    by simp_all
  from st consider "st = DeckHoldTimeout i" | "st = PageHoldTimeout p i"
    | "st = KeyHoldTimeout k i (Some p)" | "st = KeyPressTimeout k i (Some p)" by blast
  then obtain fd' fp' fk' where step: "pressed i p k dh ph kh fd' fp' fk' (do_step st w)"
    and flags: "?D fd' ts = ?D fd (st # ts)" "?P fp' ts = ?P fp (st # ts)" "?K fk' ts = ?K fk (st # ts)"
  proof cases
    case 1
    show ?thesis
      by (rule that[of "fd \<or> 0 < dh" fp fk])
         (use deck_timeout_pressed[OF Cons.prems(1)] 1 in auto)
  next
    case 2
    show ?thesis
      by (rule that[of fd "fp \<or> (\<exists>h. ph = Some h \<and> 0 < h)" fk])
         (use page_timeout_pressed[OF Cons.prems(1)] 2 in auto)
  next
    case 3
    show ?thesis
      by (rule that[of fd fp "fk \<or> (\<exists>h. kh = Some h \<and> 0 < h)"])
         (use key_timeout_pressed[OF Cons.prems(1)] 3 in auto)
  next
    case 4
    show ?thesis
      by (rule that[of fd fp fk])
         (use press_timeout_pressed[OF Cons.prems(1)] 4 in auto)
  qed
  have "pressed i p k dh ph kh (?D fd' ts) (?P fp' ts) (?K fk' ts) (run ts (do_step st w))"
    by (rule Cons.IH[OF step ts])
  then have "pressed i p k dh ph kh (?D fd (st # ts)) (?P fp (st # ts)) (?K fk (st # ts))
      (run ts (do_step st w))"
    by (simp only: flags)
  then show ?case by (simp only: run.simps)
qed

lemma page_on_up_fields:
  assumes "\<not> p_destroyed (pages w p)"
  shows "p_destroyed (pages (page_on_up p i w) p) = False"
    and "p_HOLD_TIME (pages (page_on_up p i w) p) = p_HOLD_TIME (pages w p)"
    and "out (page_on_up p i w) =
           out w @
           (case p_HOLD_TIME (pages w p) of
              None \<Rightarrow> []
            | Some h \<Rightarrow>
                Emit (OnPage p) (if i \<in> p_holdIndexes (pages w p) then Held else Click) i (Some p)
                  (map_of (p_keys (pages w p)) i) #
                (case map_of (p_keys (pages w p)) i of
                   None \<Rightarrow> []
                 | Some k \<Rightarrow>
                     if k_HOLD_TIME (keys w k) = None
                     then [Emit (OnKey k) (if i \<in> p_holdIndexes (pages w p) then Held else Click)
                             i (Some p) (Some k)]
                     else []))"
  using assms
  by (auto simp add: page_on_up_def Let_def key_inherits_hold_def emit_key_opt_def
      split: option.splits)

lemma key_on_up_fields:
  assumes "\<not> k_destroyed (keys w k)"
  shows "k_HOLD_TIME (keys (key_on_up k i po w) k) = k_HOLD_TIME (keys w k)"
    and "out (key_on_up k i po w) =
           out w @
           (if k_HOLD_TIME (keys w k) \<noteq> None
            then [Emit (OnKey k) (if pair i po \<in> set (k_holdStates (keys w k)) then Held else Click)
                    i po (Some k)]
            else []) @
           (if pair i po \<in> set (k_pressStates (keys w k)) then [DrawKey k] else [])"
  using assms
  by (auto simp add: key_on_up_def Let_def key_clear_timers_def key_draw_def set_has_iff)

lemma outcome_emit_key_other:
  "tgt \<noteq> OnKey k' \<Longrightarrow>
   filter (is_outcome tgt) (out (emit_key k' ev i po ko W)) = filter (is_outcome tgt) (out W)"
  by (cases ev)
     (auto simp add: emit_key_def Let_def key_on_detach_def key_on_hold_def
           key_on_up_def key_draw_def)

lemma outcome_emit_key_opt_other:
  "(\<And>k'. ko' = Some k' \<Longrightarrow> tgt \<noteq> OnKey k') \<Longrightarrow>
   filter (is_outcome tgt) (out (emit_key_opt ko' ev i po ko W)) = filter (is_outcome tgt) (out W)"
  by (cases ko') (simp_all add: emit_key_opt_def outcome_emit_key_other)

lemma outcome_emit_page_deck:
  "filter (is_outcome OnDeck) (out (emit_page q ev i po ko W)) = filter (is_outcome OnDeck) (out W)"
  by (cases ev)
     (auto simp add: emit_page_def Let_def page_on_up_def emit_key_opt_def split: option.splits)

lemma hw_up_outcome_deck:
  assumes "pressed i p k dh ph kh fd fp fk w"
  shows "filter (is_outcome OnDeck) (out (hw_up i w)) =
           filter (is_outcome OnDeck) (out w) @
           [Emit OnDeck (if fd then Held else Click) i (Some p) (Some k)]"
proof -
  have inv: "\<not> d_destroyed (deck w)" "d_downPages (deck w) i = Some (Some p)"
    "d_downKeys (deck w) i = Some (Some k)" "(i \<in> d_holdIndexes (deck w)) = fd"
    using assms by (simp_all add: pressed_def deck_pressed_def)
  show ?thesis
    using inv
    by (simp add: hw_up_def Let_def emit_page_opt_def emit_key_opt_def outcome_emit_page_deck
        outcome_emit_key_other)
qed


lemma emit_page_up_fields:
  assumes "\<not> p_destroyed (pages W p)"
  shows "p_destroyed (pages (emit_page p Up i po ko W) p) = False"
    and "p_HOLD_TIME (pages (emit_page p Up i po ko W) p) = p_HOLD_TIME (pages W p)"
  using assms by (simp_all add: emit_page_def page_on_up_fields)

lemma emit_key_up_fields:
  assumes "\<not> k_destroyed (keys W k)"
  shows "k_HOLD_TIME (keys (emit_key k Up i po ko W) k) = k_HOLD_TIME (keys W k)"
  using assms by (simp add: emit_key_def key_on_up_fields)

lemma outcome_emit_page_up:
  assumes "\<not> p_destroyed (pages W p)"
  shows "filter (is_outcome tgt) (out (emit_page p Up i po ko W)) =
           filter (is_outcome tgt) (out W) @
           filter (is_outcome tgt)
           (case p_HOLD_TIME (pages W p) of
              None \<Rightarrow> []
            | Some h \<Rightarrow>
                Emit (OnPage p) (if i \<in> p_holdIndexes (pages W p) then Held else Click) i (Some p)
                  (map_of (p_keys (pages W p)) i) #
                (case map_of (p_keys (pages W p)) i of
                   None \<Rightarrow> []
                 | Some k \<Rightarrow>
                     if k_HOLD_TIME (keys W k) = None
                     then [Emit (OnKey k) (if i \<in> p_holdIndexes (pages W p) then Held else Click)
                             i (Some p) (Some k)]
                     else []))"
  using assms by (simp add: emit_page_def page_on_up_fields split: option.splits)

lemma outcome_emit_key_up:
  assumes "\<not> k_destroyed (keys W k)"
  shows "filter (is_outcome tgt) (out (emit_key k Up i po ko W)) =
           filter (is_outcome tgt) (out W) @
           filter (is_outcome tgt)
           (if k_HOLD_TIME (keys W k) \<noteq> None
            then [Emit (OnKey k) (if pair i po \<in> set (k_holdStates (keys W k)) then Held else Click)
                    i po (Some k)]
            else [])"
  using assms by (simp add: emit_key_def key_on_up_fields)

lemma outcome_emit_activity:
  "filter (is_outcome tgt) (out (emit_page q ActivityUp i po ko W)) = filter (is_outcome tgt) (out W)"
  "filter (is_outcome tgt) (out (emit_key k' ActivityUp i po ko W)) = filter (is_outcome tgt) (out W)"
  by (simp_all add: emit_page_def emit_key_def)

lemma outcome_emit_page_log:
  "ev = Click \<or> ev = Held \<Longrightarrow>
   emit_page q ev i po ko W = push_out (Emit (OnPage q) ev i po ko) W"
  by (auto simp add: emit_page_def)

lemma hw_up_outcome_page:
  assumes "pressed i p k dh ph kh fd fp fk w"
  shows "filter (is_outcome (OnPage p)) (out (hw_up i w)) =
           filter (is_outcome (OnPage p)) (out w) @
           [Emit (OnPage p) (if (if ph = None then fd else fp) then Held else Click)
              i (Some p) (Some k)]"
proof -
  have inv: "\<not> d_destroyed (deck w)" "d_downPages (deck w) i = Some (Some p)"
    "d_downKeys (deck w) i = Some (Some k)" "(i \<in> d_holdIndexes (deck w)) = fd"
    "\<not> p_destroyed (pages w p)" "p_HOLD_TIME (pages w p) = ph"
    "map_of (p_keys (pages w p)) i = Some k"
    "(i \<in> p_holdIndexes (pages w p)) = (if ph = None then fd else fp)"
    using assms by (simp_all add: pressed_def deck_pressed_def page_pressed_def)
  show ?thesis
    using inv
    by (cases ph)
       (simp_all add: hw_up_def Let_def emit_page_opt_def emit_key_opt_def
        outcome_emit_key_other outcome_emit_page_up outcome_emit_activity
        page_inherits_hold_def key_inherits_hold_def emit_page_up_fields outcome_emit_page_log)
qed


lemma hw_up_outcome_key:
  assumes "pressed i p k dh ph kh fd fp fk w"
  shows "filter (is_outcome (OnKey k)) (out (hw_up i w)) =
           filter (is_outcome (OnKey k)) (out w) @
           [Emit (OnKey k) (if (if kh \<noteq> None then fk else if ph = None then fd else fp)
              then Held else Click) i (Some p) (Some k)]"
proof -
  have inv: "\<not> d_destroyed (deck w)" "d_downPages (deck w) i = Some (Some p)"
    "d_downKeys (deck w) i = Some (Some k)" "(i \<in> d_holdIndexes (deck w)) = fd"
    "\<not> p_destroyed (pages w p)" "p_HOLD_TIME (pages w p) = ph"
    "map_of (p_keys (pages w p)) i = Some k"
    "(i \<in> p_holdIndexes (pages w p)) = (if ph = None then fd else fp)"
    "\<not> k_destroyed (keys w k)" "k_HOLD_TIME (keys w k) = kh"
    "(pair i (Some p) \<in> set (k_holdStates (keys w k))) =
       (if kh \<noteq> None then fk else if ph = None then fd else fp)"
    using assms by (simp_all add: pressed_def deck_pressed_def page_pressed_def key_pressed_def)
  show ?thesis
    using inv
    by (cases ph; cases kh)
       (simp_all add: hw_up_def Let_def emit_page_opt_def emit_key_opt_def
        outcome_emit_page_up outcome_emit_key_up outcome_emit_activity
        page_inherits_hold_def key_inherits_hold_def emit_page_up_fields emit_key_up_fields
        outcome_emit_page_log)
qed


lemma run_append: "run (xs @ ys) w = run ys (run xs w)"
  by (induction xs arbitrary: w) simp_all

text \<open>
  Claim C2. Key \<open>k\<close> sits at slot \<open>i\<close> of the page \<open>p\<close> that has focus. The button goes
  down, any of the press's timers fire in any order (\<open>ts\<close>), and the button goes up. At
  every scope whose hold is not disabled (the device, the page, the key: \<open>tgt\<close>, with a
  positive governing duration) exactly one of \<open>click\<close> and \<open>held\<close> is emitted during
  the whole press: \<open>held\<close> if the timer of the governing duration fired before the up,
  which is the duration having elapsed, and \<open>click\<close> if it did not.
\<close>

theorem click_without_hold_held_with_hold:
  assumes "\<not> d_destroyed (deck w)" and "d_focusedPage (deck w) = Some p"
    and "\<not> p_destroyed (pages w p)" and "map_of (p_keys (pages w p)) i = Some k"
    and "\<not> k_destroyed (keys w k)" and "distinct (k_holdStates (keys w k))"
    and "set ts \<subseteq> {DeckHoldTimeout i, PageHoldTimeout p i, KeyHoldTimeout k i (Some p),
                     KeyPressTimeout k i (Some p)}"
    and "tgt \<in> {OnDeck, OnPage p, OnKey k}"
    and "0 < scope_hold_time w p k tgt"
  shows "filter (is_outcome tgt) (out (run (HwDown i # ts @ [HwUp i]) w)) =
           filter (is_outcome tgt) (out w) @
           [Emit tgt (if scope_timer w i p k tgt \<in> set ts then Held else Click)
              i (Some p) (Some k)]"
proof -
  let ?dh = "d_HOLD_TIME (deck w)" and ?ph = "p_HOLD_TIME (pages w p)"
    and ?kh = "k_HOLD_TIME (keys w k)"
  let ?fd = "False \<or> (0 < ?dh \<and> DeckHoldTimeout i \<in> set ts)"
  let ?fp = "False \<or> ((\<exists>h. ?ph = Some h \<and> 0 < h) \<and> PageHoldTimeout p i \<in> set ts)"
  let ?fk = "False \<or> ((\<exists>h. ?kh = Some h \<and> 0 < h) \<and> KeyHoldTimeout k i (Some p) \<in> set ts)"
  let ?w1 = "run ts (hw_down i w)"
  have down: "pressed i p k ?dh ?ph ?kh False False False (hw_down i w)"
    using assms(1-6) by (rule hw_down_pressed)
  have held: "pressed i p k ?dh ?ph ?kh ?fd ?fp ?fk ?w1"
    using down assms(7) by (rule timers_pressed)
  have before: "filter (is_outcome tgt) (out ?w1) = filter (is_outcome tgt) (out w)"
    using timers_outcome[OF assms(7)] hw_down_outcome by simp
  have run: "run (HwDown i # ts @ [HwUp i]) w = hw_up i ?w1"
    by (simp add: run_append do_step_def)
  from assms(8) consider "tgt = OnDeck" | "tgt = OnPage p" | "tgt = OnKey k" by blast
  then show ?thesis
  proof cases
    case 1
    then show ?thesis
      unfolding run using hw_up_outcome_deck[OF held] before assms(9) by simp
  next
    case 2
    then show ?thesis
      unfolding run using hw_up_outcome_page[OF held] before assms(9)
      by (cases ?ph) simp_all
  next
    case 3
    then show ?thesis
      unfolding run using hw_up_outcome_key[OF held] before assms(9)
      by (cases ?kh; cases ?ph) simp_all
  qed
qed

theorem click_without_hold_held_with_hold_witness:
  "filter (is_outcome (OnKey 0))
     (out (run (HwDown 0 # [] @ [HwUp 0])
        (upd_page 0 (\<lambda>s. s\<lparr>p_keys := [(0, 0)]\<rparr>) (new_world 500 None None)))) =
     [Emit (OnKey 0) Click 0 (Some 0) (Some 0)] \<and>
   filter (is_outcome (OnKey 0))
     (out (run (HwDown 0 # [DeckHoldTimeout 0] @ [HwUp 0])
        (upd_page 0 (\<lambda>s. s\<lparr>p_keys := [(0, 0)]\<rparr>) (new_world 500 None None)))) =
     [Emit (OnKey 0) Held 0 (Some 0) (Some 0)]"
  using click_without_hold_held_with_hold
      [of "upd_page 0 (\<lambda>s. s\<lparr>p_keys := [(0, 0)]\<rparr>) (new_world 500 None None)" 0 0 0 "[]" "OnKey 0"]
    click_without_hold_held_with_hold
      [of "upd_page 0 (\<lambda>s. s\<lparr>p_keys := [(0, 0)]\<rparr>) (new_world 500 None None)" 0 0 0
          "[DeckHoldTimeout 0]" "OnKey 0"]
  by (simp add: new_world_def new_deck_def new_page_def new_key_def)

section \<open>Verification: a hold time of 0\<close>

lemma hd_push_out [simp]:
  "hold_disabled k n w \<Longrightarrow> \<not> is_key_hold k x \<Longrightarrow> hold_disabled k n (push_out x w)"
  by (simp add: hold_disabled_def)

lemma hd_upd_deck [simp]: "hold_disabled k n w \<Longrightarrow> hold_disabled k n (upd_deck f w)"
  by (simp add: hold_disabled_def)

lemma hd_upd_page [simp]: "hold_disabled k n w \<Longrightarrow> hold_disabled k n (upd_page p f w)"
  by (simp add: hold_disabled_def)

lemma hd_upd_other_key [simp]:
  "hold_disabled k n w \<Longrightarrow> k' \<noteq> k \<Longrightarrow> hold_disabled k n (upd_key k' f w)"
  by (simp add: hold_disabled_def)

lemma hd_key_draw [simp]: "hold_disabled k n w \<Longrightarrow> hold_disabled k n (key_draw k' w)"
  by (simp add: key_draw_def)

lemma hd_page_draw [simp]: "hold_disabled k n w \<Longrightarrow> hold_disabled k n (page_draw p w)"
  by (simp add: page_draw_def)

lemma hd_key_on_detach [simp]:
  "hold_disabled k n w \<Longrightarrow> hold_disabled k n (key_on_detach k' index page w)"
  by (cases "k' = k") (auto simp add: key_on_detach_def key_clear_timers_def hold_disabled_def)

lemma hd_key_on_down [simp]:
  "hold_disabled k n w \<Longrightarrow> hold_disabled k n (key_on_down k' index page w)"
  by (cases "k' = k")
     (auto simp add: key_on_down_def key_clear_timers_def hold_disabled_def key_draw_def Let_def
           split: option.splits)

lemma hd_key_on_hold [simp]:
  "hold_disabled k n w \<Longrightarrow> hold_disabled k n (key_on_hold k' index page w)"
  by (cases "k' = k") (auto simp add: key_on_hold_def hold_disabled_def)

lemma hd_key_on_up [simp]:
  "hold_disabled k n w \<Longrightarrow> hold_disabled k n (key_on_up k' index page w)"
  by (cases "k' = k")
     (auto simp add: key_on_up_def key_clear_timers_def hold_disabled_def key_draw_def Let_def)

lemma hd_key_on_activity [simp]:
  "hold_disabled k n w \<Longrightarrow> hold_disabled k n (key_on_activity k' w)"
  by (cases "k' = k") (auto simp add: key_on_activity_def hold_disabled_def Let_def)

lemma hd_emit_key:
  "hold_disabled k n w \<Longrightarrow> k' \<noteq> k \<or> (ev \<noteq> Hold \<and> ev \<noteq> Held) \<Longrightarrow>
   hold_disabled k n (emit_key k' ev index page key w)"
  by (cases ev) (auto simp add: emit_key_def Let_def)

lemma hd_emit_key_opt_event [simp]:
  "hold_disabled k n w \<Longrightarrow> ev \<noteq> Hold \<Longrightarrow> ev \<noteq> Held \<Longrightarrow>
   hold_disabled k n (emit_key_opt ko ev index page key w)"
  by (cases ko) (simp_all add: emit_key_opt_def hd_emit_key)

lemma hd_emit_key_opt_inherits [simp]:
  "hold_disabled k n w \<Longrightarrow> key_inherits_hold w ko \<Longrightarrow>
   hold_disabled k n (emit_key_opt ko ev index page key w)"
  by (cases ko) (auto simp add: emit_key_opt_def key_inherits_hold_def hold_disabled_def
      intro!: hd_emit_key[unfolded hold_disabled_def])


lemma hd_page_on_down [simp]:
  "hold_disabled k n w \<Longrightarrow> hold_disabled k n (page_on_down p index w)"
  by (simp add: page_on_down_def Let_def split: option.splits)

lemma hd_page_on_hold [simp]:
  "hold_disabled k n w \<Longrightarrow> hold_disabled k n (page_on_hold p index w)"
  by (simp add: page_on_hold_def)

lemma hd_page_on_up [simp]:
  "hold_disabled k n w \<Longrightarrow> hold_disabled k n (page_on_up p index w)"
  by (simp add: page_on_up_def Let_def)

lemma hd_page_on_activity [simp]:
  "hold_disabled k n w \<Longrightarrow> hold_disabled k n (page_on_activity p w)"
  by (simp add: page_on_activity_def Let_def)

lemma hd_emit_page [simp]:
  "hold_disabled k n w \<Longrightarrow> hold_disabled k n (emit_page p ev index page key w)"
  by (cases ev) (simp_all add: emit_page_def Let_def)

lemma hd_emit_page_opt [simp]:
  "hold_disabled k n w \<Longrightarrow> hold_disabled k n (emit_page_opt po ev index page key w)"
  by (cases po) (simp_all add: emit_page_opt_def)

lemma hd_page_hold_timeout [simp]:
  "hold_disabled k n w \<Longrightarrow> hold_disabled k n (page_hold_timeout p index key w)"
  by (simp add: page_hold_timeout_def Let_def)

lemma hd_deck_on_activity [simp]:
  "hold_disabled k n w \<Longrightarrow> hold_disabled k n (deck_on_activity w)"
  by (simp add: deck_on_activity_def Let_def)

lemma hd_emit_deck [simp]:
  "hold_disabled k n w \<Longrightarrow> hold_disabled k n (emit_deck ev index page key w)"
  by (cases ev) (simp_all add: emit_deck_def Let_def)

lemma hd_deck_hold_timeout [simp]:
  "hold_disabled k n w \<Longrightarrow> hold_disabled k n (deck_hold_timeout index page key w)"
  by (simp add: deck_hold_timeout_def Let_def)

lemma hd_hw_down [simp]: "hold_disabled k n w \<Longrightarrow> hold_disabled k n (hw_down index w)"
  by (simp add: hw_down_def Let_def)

lemma hd_hw_up [simp]: "hold_disabled k n w \<Longrightarrow> hold_disabled k n (hw_up index w)"
  by (simp add: hw_up_def Let_def)

lemma hd_key_hold_timeout_other [simp]:
  "hold_disabled k n w \<Longrightarrow> k' \<noteq> k \<Longrightarrow> hold_disabled k n (key_hold_timeout k' index page w)"
  by (simp add: key_hold_timeout_def Let_def hd_emit_key)

lemma hd_key_press_timeout [simp]:
  "hold_disabled k n w \<Longrightarrow> hold_disabled k n (key_press_timeout k' index page w)"
  by (cases "k' = k") (auto simp add: key_press_timeout_def hold_disabled_def key_draw_def Let_def)

lemma hd_detach_loop [simp]:
  "hold_disabled k n w \<Longrightarrow> hold_disabled k n (snd (detach_loop p index key w))"
  by (simp add: detach_loop_def Let_def hd_emit_key split: option.splits prod.splits)

lemma hd_detachKey [simp]:
  "hold_disabled k n w \<Longrightarrow> hold_disabled k n (snd (detachKey p row column key w))"
  by (simp add: detachKey_def split: option.splits sum.splits)

lemma hd_attach_at [simp]:
  assumes h: "hold_disabled k n w"
  shows "hold_disabled k n (snd (attach_at p index key w))"
proof -
  obtain e w1 where d: "detachKey p (ANumber (int index)) AUndefined AUndefined w = (e, w1)"
    by (cases "detachKey p (ANumber (int index)) AUndefined AUndefined w")
  have "hold_disabled k n (snd (detachKey p (ANumber (int index)) AUndefined AUndefined w))"
    using h by (rule hd_detachKey)
  then have w1: "hold_disabled k n w1" by (simp add: d)
  show ?thesis
    using h w1
    by (auto simp add: attach_at_def d Let_def hd_emit_key split: option.splits)
qed

lemma hd_attachKey [simp]:
  "hold_disabled k n w \<Longrightarrow> hold_disabled k n (snd (attachKey p row column key w))"
  by (simp add: attachKey_def split: option.splits sum.splits)

lemma hd_do_step:
  assumes h: "hold_disabled k n w"
  shows "hold_disabled k n (do_step st w)"
proof (cases st)
  case (KeyHoldTimeout k' index page)
  show ?thesis
  proof (cases "(index, page) \<in> k_holdTimeoutIds (keys w k')")
    case True
    then have "k' \<noteq> k" using h by (auto simp add: hold_disabled_def)
    then show ?thesis using h True KeyHoldTimeout by (simp add: do_step_def)
  next
    case False
    then show ?thesis using h KeyHoldTimeout by (simp add: do_step_def)
  qed
qed (use h in \<open>simp_all add: do_step_def split: option.splits\<close>)

lemma hd_run: "hold_disabled k n w \<Longrightarrow> hold_disabled k n (run sts w)"
  by (induction sts arbitrary: w) (simp_all add: hd_do_step)

text \<open>
  Claim C3. A key whose own hold time is 0 (with no hold timer pending and no pair
  marked held, as its constructor leaves it) emits neither \<open>hold\<close> nor \<open>held\<close>, whatever
  happens to the device: after any run of button transitions, timer firings, attachments
  and detachments the \<open>hold\<close> and \<open>held\<close> notifications on the key are those it had
  before. This holds for every hold time of the device and of the pages, so for a device
  default of 500 and a page without one.
\<close>

theorem hold_disabled_key_never_holds:
  assumes "k_HOLD_TIME (keys w k) = Some 0"
    and "k_holdTimeoutIds (keys w k) = {}"
    and "k_holdStates (keys w k) = []"
  shows "filter (is_key_hold k) (out (run sts w)) = filter (is_key_hold k) (out w)"
proof -
  have "hold_disabled k (filter (is_key_hold k) (out w)) w"
    using assms by (simp add: hold_disabled_def)
  then have "hold_disabled k (filter (is_key_hold k) (out w)) (run sts w)"
    by (rule hd_run)
  then show ?thesis by (simp add: hold_disabled_def)
qed

theorem hold_disabled_key_never_holds_witness:
  "filter (is_key_hold 0)
     (out (run [HwDown 0, DeckHoldTimeout 0, HwUp 0]
        (upd_page 0 (\<lambda>s. s\<lparr>p_keys := [(0, 0)]\<rparr>) (new_world 500 None (Some 0))))) = []"
  using hold_disabled_key_never_holds
      [of "upd_page 0 (\<lambda>s. s\<lparr>p_keys := [(0, 0)]\<rparr>) (new_world 500 None (Some 0))" 0
          "[HwDown 0, DeckHoldTimeout 0, HwUp 0]"]
  by (simp add: new_world_def new_deck_def new_page_def new_key_def)

section \<open>Verification: held and downed\<close>

lemmas handler_defs =
  do_step_def hw_down_def hw_up_def deck_hold_timeout_def page_hold_timeout_def
  key_hold_timeout_def key_press_timeout_def emit_deck_def emit_page_def emit_key_def
  emit_page_opt_def emit_key_opt_def deck_on_activity_def page_on_activity_def
  key_on_activity_def page_on_down_def page_on_hold_def page_on_up_def
  key_on_down_def key_on_hold_def key_on_up_def key_on_detach_def key_clear_timers_def
  key_draw_def page_draw_def key_inherits_hold_def page_inherits_hold_def
  attachKey_def detachKey_def attach_at_def detach_loop_def checkPageDestroyed_def
  is_number_def slot_of_index_def slot_of_row_column_def checkValidInteger_def
  checkValidKey_def key_of_arg_def pair_def set_add_def strict_match_def

lemmas world_defs = new_world_def new_deck_def new_page_def new_key_def

text \<open>
  Claim C5 fails on the code. Key 0 is attached at slot 0 of the focused page 0; neither
  has a hold time of its own and the device's is 500. The button goes down (the pair is
  marked downed), the key is detached (its handler purges the pair), and then the
  device's hold timer, which nothing cancelled, fires: it propagates \<open>hold\<close> to the key
  captured at the down, and the key marks the pair held although it is not downed.
\<close>

theorem held_without_downed_after_detach:
  "k_downStates (keys (run [AttachKey 0 (ANumber 0) (AKey 0) AUndefined, HwDown 0]
       (new_world 500 None None)) 0) = [pair 0 (Some 0)] \<and>
   k_holdStates (keys (run [AttachKey 0 (ANumber 0) (AKey 0) AUndefined, HwDown 0,
       DetachKey 0 (ANumber 0) (AKey 0) AUndefined, DeckHoldTimeout 0]
       (new_world 500 None None)) 0) = [pair 0 (Some 0)] \<and>
   k_downStates (keys (run [AttachKey 0 (ANumber 0) (AKey 0) AUndefined, HwDown 0,
       DetachKey 0 (ANumber 0) (AKey 0) AUndefined, DeckHoldTimeout 0]
       (new_world 500 None None)) 0) = []"
  by (simp add: handler_defs world_defs Let_def)

section \<open>Verification: the sources of a load\<close>

lemma map_filter_none:
  "(\<forall>x \<in> set xs. f x = None) \<Longrightarrow> List.map_filter id (map f xs) = []"
  by (induction xs) (simp_all add: List.map_filter_simps)

lemma filter_none_length:
  "(\<forall>x \<in> set xs. f x = None) \<Longrightarrow> length (filter (\<lambda>r. r = None) (map f xs)) = length xs"
  by (induction xs) simp_all

lemma map_filter_bind:
  "List.map_filter id (map g (List.map_filter id (map f xs))) =
     List.map_filter (\<lambda>x. Option.bind (f x) g) xs"
  by (induction xs) (auto simp add: List.map_filter_simps split: option.splits)

text \<open>
  Claim C7. The sources handed to the compositing step are never none. They are the
  provided sources that resolved and, where needed, resized, in their order: a source that
  fails is dropped alone, with an \<open>error\<close> event. When no source is left, and so when
  none of the provided sources resolves, they are the one synthesized source: blank, of
  the target width and height, with the fully transparent background.
\<close>

theorem load_never_without_layers:
  "fst (load_sources env WIDTH HEIGHT SOURCE) \<noteq> [] \<and>
   fst (load_sources env WIDTH HEIGHT SOURCE) =
     (if List.map_filter (\<lambda>s. Option.bind (resolve_source env WIDTH HEIGHT s)
           (resize_source env WIDTH HEIGHT)) (parse_sources SOURCE) = []
      then [transparent_source WIDTH HEIGHT]
      else List.map_filter (\<lambda>s. Option.bind (resolve_source env WIDTH HEIGHT s)
           (resize_source env WIDTH HEIGHT)) (parse_sources SOURCE)) \<and>
   ((\<forall>s \<in> set (parse_sources SOURCE). resolve_source env WIDTH HEIGHT s = None) \<longrightarrow>
      load_sources env WIDTH HEIGHT SOURCE =
        ([transparent_source WIDTH HEIGHT], length (parse_sources SOURCE))) \<and>
   sd_source (transparent_source WIDTH HEIGHT :: 'h source_data) =
     Created WIDTH HEIGHT (Background 0 0 0 0) \<and>
   sd_width (transparent_source WIDTH HEIGHT :: 'h source_data) = WIDTH \<and>
   sd_height (transparent_source WIDTH HEIGHT :: 'h source_data) = HEIGHT"
proof -
  have "fst (load_sources env WIDTH HEIGHT SOURCE) =
           (if List.map_filter (\<lambda>s. Option.bind (resolve_source env WIDTH HEIGHT s)
                 (resize_source env WIDTH HEIGHT)) (parse_sources SOURCE) = []
            then [transparent_source WIDTH HEIGHT]
            else List.map_filter (\<lambda>s. Option.bind (resolve_source env WIDTH HEIGHT s)
                 (resize_source env WIDTH HEIGHT)) (parse_sources SOURCE))"
    by (simp add: load_sources_def Let_def map_filter_bind)
  moreover have "fst (load_sources env WIDTH HEIGHT SOURCE) \<noteq> []"
    by (simp add: load_sources_def Let_def)
  moreover have "load_sources env WIDTH HEIGHT SOURCE =
           ([transparent_source WIDTH HEIGHT], length (parse_sources SOURCE))"
    if "\<forall>s \<in> set (parse_sources SOURCE). resolve_source env WIDTH HEIGHT s = None"
    using that by (simp add: load_sources_def Let_def map_filter_none filter_none_length)
  ultimately show ?thesis by (simp add: transparent_source_def)
qed

theorem load_never_without_layers_witness:
  "load_sources
     \<lparr>decode = (\<lambda>x. None), imageSharp = (\<lambda>i. None), parseColor = (\<lambda>c :: string. None),
      create = (\<lambda>w h bg. None), resize = (\<lambda>h w v. (None :: (nat \<times> nat \<times> nat) option))\<rparr>
     72 72
     (Some (Array [Plain (SrcFile ''missing.png''),
        Array [Object \<lparr>o_source = None, o_empty = None, o_color = None, o_resize = None,
                       o_resizeOptions = False\<rparr>]])) =
   ([\<lparr>sd_source = Created 72 72 (Background 0 0 0 0), sd_width = 72, sd_height = 72,
      sd_resize = None, sd_resizeOptions = False\<rparr>], 2)"
  using load_never_without_layers
    [where SOURCE = "Some (Array [Plain (SrcFile ''missing.png''),
        Array [Object \<lparr>o_source = None, o_empty = None, o_color = None, o_resize = None,
                       o_resizeOptions = False\<rparr>]])"
      and env = "\<lparr>decode = (\<lambda>x. None), imageSharp = (\<lambda>i. None), parseColor = (\<lambda>c :: string. None),
      create = (\<lambda>w h bg. None), resize = (\<lambda>h w v. (None :: (nat \<times> nat \<times> nat) option))\<rparr>"
      and WIDTH = 72 and HEIGHT = 72]
  by (simp add: parse_sources_def resolve_source_def as_object_def transparent_source_def)

end
